theory Spec2Isabelle
  imports Main "HOL-Library.Word" "HOL-Library.List_Lexorder" "HOL-Library.AList"
begin

text \<open>
  The region splitter of the restore package (\<^verbatim>\<open>RegionSplitter.Split\<close>, the topology
  scan \<^verbatim>\<open>PaginateScanRegion\<close>, the split-key planner \<^verbatim>\<open>getSplitKeys\<close> and the scatter
  coordinator \<^verbatim>\<open>ScatterRegions\<close>) as functions over an explicit world, followed by the
  properties C1 to C10. The definitions come first, in the order of the source; a function
  named after a Go function with a suffix is a loop of that function.
\<close>

section \<open>Keys, errors and region metadata\<close>

text \<open>
  Keys are Go byte slices. A nil slice and an empty slice are the same list here, as they
  are for \<^verbatim>\<open>len\<close>, \<^verbatim>\<open>bytes.Equal\<close> and \<^verbatim>\<open>bytes.Compare\<close>.
  \<^verbatim>\<open>bytes.Compare\<close> orders byte slices lexicographically by unsigned byte value and
  returns -1, 0 or 1.
\<close>

type_synonym bytes = "8 word list"

fun bytes_Compare :: "bytes \<Rightarrow> bytes \<Rightarrow> int" where
  "bytes_Compare [] [] = 0"
| "bytes_Compare [] (y # ys) = - 1"
| "bytes_Compare (x # xs) [] = 1"
| "bytes_Compare (x # xs) (y # ys) =
     (if x < y then - 1 else if y < x then 1 else bytes_Compare xs ys)"

definition bytes_Equal :: "bytes \<Rightarrow> bytes \<Rightarrow> bool" where
  "bytes_Equal a b = (a = b)"

text \<open>
  An error value carries the error class that \<^verbatim>\<open>(*Error).Equal\<close> compares (its cause)
  and its message. The classes are the three of \<^verbatim>\<open>berrors\<close> that the splitter names,
  one for every other single error, and one for the errors that multierr combines.
  \<^verbatim>\<open>errors.Trace\<close> keeps both and is the identity here;
  \<^verbatim>\<open>errors.Annotatef\<close> builds an error of the given class (the rendering of the key
  arguments into the message is left out: the program never reads these messages).
\<close>

datatype errclass = ErrPDBatchScanRegion | ErrRestoreInvalidRange | ErrPDInvalidResponse | ErrOther
  | MultiError

datatype error = Err (Cause: errclass) (Message: string)

definition Equal :: "errclass \<Rightarrow> error \<Rightarrow> bool" where
  "Equal cls e = (Cause e = cls)"

definition Annotatef :: "errclass \<Rightarrow> string \<Rightarrow> error" where
  "Annotatef cls msg = Err cls msg"

text \<open>
  \<^verbatim>\<open>metapb.Region\<close> (peers and epoch are never read by the splitter) and
  \<^verbatim>\<open>RegionInfo\<close>. Region ids are \<^verbatim>\<open>uint64\<close>; they are only compared, so
  they are natural numbers here.
\<close>

record Region =
  GetId :: nat
  GetStartKey :: bytes
  GetEndKey :: bytes

record RegionInfo =
  Region :: Region
  Leader :: "nat option"

section \<open>Topology scanner: the consistency check\<close>

fun checkAdjacent :: "RegionInfo \<Rightarrow> RegionInfo list \<Rightarrow> error option" where
  "checkAdjacent cur [] = None"
| "checkAdjacent cur (r # rs) =
     (if \<not> bytes_Equal (GetEndKey (Region cur)) (GetStartKey (Region r))
      then Some (Annotatef ErrPDBatchScanRegion ''region endKey not equal to next region startKey'')
      else checkAdjacent r rs)"

definition checkRegionConsistency :: "bytes \<Rightarrow> bytes \<Rightarrow> RegionInfo list \<Rightarrow> error option" where
  "checkRegionConsistency startKey endKey regions =
     (if length regions = 0
      then Some (Annotatef ErrPDBatchScanRegion ''scan region return empty result'')
      else if bytes_Compare (GetStartKey (Region (hd regions))) startKey > 0
      then Some (Annotatef ErrPDBatchScanRegion ''first region's startKey > startKey'')
      else if length (GetEndKey (Region (last regions))) \<noteq> 0
              \<and> bytes_Compare (GetEndKey (Region (last regions))) endKey < 0
      then Some (Annotatef ErrPDBatchScanRegion ''last region's endKey < startKey'')
      else checkAdjacent (hd regions) (tl regions))"

section \<open>Backoff strategies\<close>

text \<open>
  Durations are \<^verbatim>\<open>time.Duration\<close> values, counted in nanoseconds.
\<close>

type_synonym Duration = int

definition Millisecond :: Duration where
  "Millisecond = 1000000"

definition Second :: Duration where
  "Second = 1000000000"

text \<open>
  The two implementations of the \<^verbatim>\<open>utils.Backoffer\<close> interface that the splitter
  uses, each with its mutable fields. \<^verbatim>\<open>scanRegionBackoffer\<close> is in the sources.
\<close>

datatype Backoffer =
  ScanRegionBackoffer int
| ExponentialBackoffer int Duration

definition newScanRegionBackoffer :: Backoffer where
  "newScanRegionBackoffer = ScanRegionBackoffer 3"

text \<open>
  Modelled from the spec: the methods \<^verbatim>\<open>NextBackoff\<close> and \<^verbatim>\<open>Attempt\<close> of
  \<^verbatim>\<open>exponentialBackoffer\<close> are not in the sources (its two fields are). The spec
  describes a fixed-attempt exponential policy: every call of NextBackoff uses up one
  attempt and doubles the delay; Attempt is the number of attempts left. The equations
  for \<^verbatim>\<open>scanRegionBackoffer\<close> are from the sources.
\<close>

fun NextBackoff :: "Backoffer \<Rightarrow> error \<Rightarrow> Duration \<times> Backoffer" where
  "NextBackoff (ScanRegionBackoffer attempt) err =
     (if Equal ErrPDBatchScanRegion err
      then (500 * Millisecond, ScanRegionBackoffer (attempt - 1))
      else (0, ScanRegionBackoffer 0))"
| "NextBackoff (ExponentialBackoffer attempt baseBackoff) err =
     (baseBackoff, ExponentialBackoffer (attempt - 1) (2 * baseBackoff))"

fun Attempt :: "Backoffer \<Rightarrow> int" where
  "Attempt (ScanRegionBackoffer attempt) = attempt"
| "Attempt (ExponentialBackoffer attempt baseBackoff) = attempt"

section \<open>The cluster client and the environment\<close>

text \<open>
  \<^verbatim>\<open>rtree.Range\<close> (its file list is never read by the splitter), the rewrite rules
  (pairs of old and new key prefix), and the part of \<^verbatim>\<open>pdpb.GetOperatorResponse\<close> that
  is read.
\<close>

record Range =
  StartKey :: bytes
  EndKey :: bytes

type_synonym RewriteRules = "(bytes \<times> bytes) list"

datatype ErrorType = PD_OK | UNKNOWN | NOT_BOOTSTRAPPED | STORE_TOMBSTONE | ALREADY_BOOTSTRAPPED
  | INCOMPATIBLE_VERSION | REGION_NOT_FOUND

datatype OperatorStatus = SUCCESS | TIMEOUT | CANCEL | REPLACE | RUNNING

record GetOperatorResponse =
  HeaderError :: "ErrorType option"
  Desc :: string
  Status :: OperatorStatus

text \<open>
  Everything the splitter calls that is outside the sources is a field of one record, over
  an abstract state \<open>'s\<close> of the cluster and the clock: the five calls of the
  \<^verbatim>\<open>SplitClient\<close> interface, each returning its result and the new state; the clock
  (\<^verbatim>\<open>time.Now\<close>, \<^verbatim>\<open>time.Sleep\<close>); \<^verbatim>\<open>codec.EncodeBytes\<close>;
  \<^verbatim>\<open>SortRanges\<close>; and \<^verbatim>\<open>pdErrorCanRetry\<close>. The theorems hold for every such
  record. Contexts are never cancelled in this model, and log output is left out.
\<close>

record 's collaborators =
  ScanRegions :: "bytes \<Rightarrow> bytes \<Rightarrow> int \<Rightarrow> 's \<Rightarrow> (error + RegionInfo list) \<times> 's"
  GetRegionByID :: "nat \<Rightarrow> 's \<Rightarrow> (error + RegionInfo option) \<times> 's"
  BatchSplitRegions :: "RegionInfo \<Rightarrow> bytes list \<Rightarrow> 's \<Rightarrow> (error + RegionInfo list) \<times> 's"
  ScatterRegion :: "RegionInfo \<Rightarrow> 's \<Rightarrow> error option \<times> 's"
  GetOperator :: "nat \<Rightarrow> 's \<Rightarrow> (error + GetOperatorResponse) \<times> 's"
  Now :: "'s \<Rightarrow> Duration"
  Sleeping :: "Duration \<Rightarrow> 's \<Rightarrow> 's"
  EncodeBytes :: "bytes \<Rightarrow> bytes"
  SortRanges :: "Range list \<Rightarrow> RewriteRules \<Rightarrow> error + Range list"
  pdErrorCanRetry :: "error \<Rightarrow> bool"

text \<open>
  The world is the abstract state with the trace of what the splitter did to it: every
  client call, every sleep and every call of the \<^verbatim>\<open>onSplit\<close> callback, in order.
\<close>

datatype event =
  CallScanRegions bytes bytes int
| CallGetRegionByID nat
| CallBatchSplitRegions RegionInfo "bytes list"
| CallScatterRegion RegionInfo
| CallGetOperator nat
| CallOnSplit "bytes list"
| Sleep Duration

type_synonym 's world = "'s \<times> event list"

definition client_ScanRegions ::
  "'s collaborators \<Rightarrow> bytes \<Rightarrow> bytes \<Rightarrow> int \<Rightarrow> 's world \<Rightarrow> (error + RegionInfo list) \<times> 's world" where
  "client_ScanRegions c startKey endKey limit w =
     (case ScanRegions c startKey endKey limit (fst w) of
        (r, s') \<Rightarrow> (r, (s', snd w @ [CallScanRegions startKey endKey limit])))"

definition client_GetRegionByID ::
  "'s collaborators \<Rightarrow> nat \<Rightarrow> 's world \<Rightarrow> (error + RegionInfo option) \<times> 's world" where
  "client_GetRegionByID c regionID w =
     (case GetRegionByID c regionID (fst w) of
        (r, s') \<Rightarrow> (r, (s', snd w @ [CallGetRegionByID regionID])))"

definition client_BatchSplitRegions ::
  "'s collaborators \<Rightarrow> RegionInfo \<Rightarrow> bytes list \<Rightarrow> 's world \<Rightarrow> (error + RegionInfo list) \<times> 's world" where
  "client_BatchSplitRegions c regionInfo keys w =
     (case BatchSplitRegions c regionInfo keys (fst w) of
        (r, s') \<Rightarrow> (r, (s', snd w @ [CallBatchSplitRegions regionInfo keys])))"

definition client_ScatterRegion ::
  "'s collaborators \<Rightarrow> RegionInfo \<Rightarrow> 's world \<Rightarrow> error option \<times> 's world" where
  "client_ScatterRegion c regionInfo w =
     (case ScatterRegion c regionInfo (fst w) of
        (r, s') \<Rightarrow> (r, (s', snd w @ [CallScatterRegion regionInfo])))"

definition client_GetOperator ::
  "'s collaborators \<Rightarrow> nat \<Rightarrow> 's world \<Rightarrow> (error + GetOperatorResponse) \<times> 's world" where
  "client_GetOperator c regionID w =
     (case GetOperator c regionID (fst w) of
        (r, s') \<Rightarrow> (r, (s', snd w @ [CallGetOperator regionID])))"

definition time_Sleep :: "'s collaborators \<Rightarrow> Duration \<Rightarrow> 's world \<Rightarrow> 's world" where
  "time_Sleep c d w = (Sleeping c d (fst w), snd w @ [Sleep d])"

definition time_Now :: "'s collaborators \<Rightarrow> 's world \<Rightarrow> Duration" where
  "time_Now c w = Now c (fst w)"

definition onSplit :: "bytes list \<Rightarrow> 's world \<Rightarrow> 's world" where
  "onSplit keys w = (fst w, snd w @ [CallOnSplit keys])"

text \<open>
  A call of the program either returns a value and the new world, or panics (an index out
  of range, a nil dereference); \<open>None\<close> stands for a call that never returns.
\<close>

datatype ('a, 'w) outcome = Return 'a 'w | Panic

text \<open>Constants for the split retry machinery.\<close>

definition SplitRetryTimes :: nat where "SplitRetryTimes = 32"
definition SplitRetryInterval :: Duration where "SplitRetryInterval = 50 * Millisecond"
definition SplitMaxRetryInterval :: Duration where "SplitMaxRetryInterval = Second"
definition SplitCheckMaxRetryTimes :: nat where "SplitCheckMaxRetryTimes = 64"
definition SplitCheckInterval :: Duration where "SplitCheckInterval = 8 * Millisecond"
definition SplitMaxCheckInterval :: Duration where "SplitMaxCheckInterval = Second"
definition ScatterWaitMaxRetryTimes :: nat where "ScatterWaitMaxRetryTimes = 64"
definition ScatterWaitInterval :: Duration where "ScatterWaitInterval = 50 * Millisecond"
definition ScatterMaxWaitInterval :: Duration where "ScatterMaxWaitInterval = Second"
definition ScatterWaitUpperInterval :: Duration where "ScatterWaitUpperInterval = 180 * Second"
definition ScanRegionPaginationLimit :: int where "ScanRegionPaginationLimit = 128"

section \<open>Retrying\<close>

text \<open>
  \<^verbatim>\<open>multierr.Append\<close> belongs to the library go.uber.org/multierr, outside the sources.
  Appending nil to an error, or an error to nil, gives that error itself. Appending an
  error to an error gives a combined error: it is none of the error classes, so
  \<^verbatim>\<open>Equal\<close> is false for it whatever the class (the class \<open>MultiError\<close> stands for
  that), and its message joins the two messages.
\<close>

fun multierr_Append :: "error option \<Rightarrow> error option \<Rightarrow> error option" where
  "multierr_Append None r = r"
| "multierr_Append (Some l) None = Some l"
| "multierr_Append (Some l) (Some r) = Some (Err MultiError (Message l @ ''; '' @ Message r))"

lemma NextBackoff_decreases:
  "0 < Attempt b \<Longrightarrow> Attempt (snd (NextBackoff b err)) < Attempt b"
  by (cases b) auto

text \<open>
  Modelled from the spec: \<^verbatim>\<open>utils.WithRetry\<close> is not in the sources. While the
  backoffer has attempts left, it runs the function; on success it returns nil; on an
  error it asks the backoffer for the delay (which updates the backoffer), sleeps and
  tries again. When no attempt is left it returns the errors met. The state \<open>'st\<close> is
  whatever the retried function changes.
\<close>

function WithRetry ::
  "(Duration \<Rightarrow> 'st \<Rightarrow> 'st) \<Rightarrow> ('st \<Rightarrow> (error option, 'st) outcome option) \<Rightarrow> Backoffer
     \<Rightarrow> error option \<Rightarrow> 'st \<Rightarrow> (error option, 'st) outcome option" where
  "WithRetry sleep retryableFunc backoffer allErrors st =
     (if 0 < Attempt backoffer
      then (case retryableFunc st of
              None \<Rightarrow> None
            | Some Panic \<Rightarrow> Some Panic
            | Some (Return None st') \<Rightarrow> Some (Return None st')
            | Some (Return (Some err) st') \<Rightarrow>
                WithRetry sleep retryableFunc (snd (NextBackoff backoffer err))
                  (multierr_Append allErrors (Some err))
                  (sleep (fst (NextBackoff backoffer err)) st'))
      else Some (Return allErrors st))"
  by pat_completeness auto
termination
  by (relation "measure (\<lambda>(sleep, f, b, a, st). nat (Attempt b))")
    (auto simp: NextBackoff_decreases)

section \<open>Topology scanner: pagination\<close>

text \<open>
  The pagination loop of \<^verbatim>\<open>PaginateScanRegion\<close>. It has no bound of its own: a client
  that keeps returning full pages whose last end key stays before endKey keeps it running.
  It returns the regions accumulated and the error of the failing scan, if any.
  Indexing the last region of an empty page panics (possible only for a limit below 1).
\<close>

partial_function (option) paginate ::
  "'s collaborators \<Rightarrow> bytes \<Rightarrow> int \<Rightarrow> bytes \<Rightarrow> RegionInfo list \<Rightarrow> 's world
     \<Rightarrow> (error option \<times> RegionInfo list, 's world) outcome option" where
  "paginate c endKey limit scanStartKey regions w =
     (case client_ScanRegions c scanStartKey endKey limit w of
        (Inl err, w') \<Rightarrow> Some (Return (Some err, regions) w')
      | (Inr batch, w') \<Rightarrow>
          if int (length batch) < limit then Some (Return (None, regions @ batch) w')
          else if batch = [] then Some Panic
          else if length (GetEndKey (Region (last batch))) = 0
                  \<or> (0 < length endKey \<and> 0 \<le> bytes_Compare (GetEndKey (Region (last batch))) endKey)
          then Some (Return (None, regions @ batch) w')
          else paginate c endKey limit (GetEndKey (Region (last batch))) (regions @ batch) w')"

text \<open>
  The function that \<^verbatim>\<open>PaginateScanRegion\<close> retries: one full scan from startKey and the
  consistency check. Its state is the captured variable \<^verbatim>\<open>regions\<close> and the world.
\<close>

definition scanAttempt ::
  "'s collaborators \<Rightarrow> bytes \<Rightarrow> bytes \<Rightarrow> int \<Rightarrow> RegionInfo list \<times> 's world
     \<Rightarrow> (error option, RegionInfo list \<times> 's world) outcome option" where
  "scanAttempt c startKey endKey limit st =
     (case paginate c endKey limit startKey [] (snd st) of
        None \<Rightarrow> None
      | Some Panic \<Rightarrow> Some Panic
      | Some (Return (Some err, regions) w') \<Rightarrow> Some (Return (Some err) (regions, w'))
      | Some (Return (None, regions) w') \<Rightarrow>
          (case checkRegionConsistency startKey endKey regions of
             Some err \<Rightarrow> Some (Return (Some err) (regions, w'))
           | None \<Rightarrow> Some (Return None (regions, w'))))"

definition PaginateScanRegion ::
  "'s collaborators \<Rightarrow> bytes \<Rightarrow> bytes \<Rightarrow> int \<Rightarrow> 's world
     \<Rightarrow> (RegionInfo list \<times> error option, 's world) outcome option" where
  "PaginateScanRegion c startKey endKey limit w =
     (if length endKey \<noteq> 0 \<and> 0 \<le> bytes_Compare startKey endKey
      then Some (Return ([], Some (Annotatef ErrRestoreInvalidRange ''startKey >= endKey'')) w)
      else (case WithRetry (\<lambda>d st. (fst st, time_Sleep c d (snd st)))
                   (scanAttempt c startKey endKey limit) newScanRegionBackoffer None ([], w) of
              None \<Rightarrow> None
            | Some Panic \<Rightarrow> Some Panic
            | Some (Return err (regions, w')) \<Rightarrow> Some (Return (regions, err) w')))"

section \<open>Split-key planner\<close>

text \<open>
  Modelled from the spec: \<^verbatim>\<open>RegionInfo.ContainsInterior\<close> is not in the sources. The
  spec: the key falls strictly inside the region, not on its start key; an empty end key
  is unbounded.
\<close>

definition ContainsInterior :: "RegionInfo \<Rightarrow> bytes \<Rightarrow> bool" where
  "ContainsInterior region key =
     (0 < bytes_Compare key (GetStartKey (Region region))
      \<and> (length (GetEndKey (Region region)) = 0
         \<or> bytes_Compare key (GetEndKey (Region region)) < 0))"

fun NeedSplit_regions :: "bytes \<Rightarrow> RegionInfo list \<Rightarrow> RegionInfo option" where
  "NeedSplit_regions splitKey [] = None"
| "NeedSplit_regions splitKey (region # regions) =
     (if bytes_Equal splitKey (GetStartKey (Region region)) then None
      else if ContainsInterior region splitKey then Some region
      else NeedSplit_regions splitKey regions)"

text \<open>\<open>enc\<close> is \<^verbatim>\<open>codec.EncodeBytes\<close>.\<close>

definition NeedSplit :: "(bytes \<Rightarrow> bytes) \<Rightarrow> bytes \<Rightarrow> RegionInfo list \<Rightarrow> RegionInfo option" where
  "NeedSplit enc splitKey regions =
     (if length splitKey = 0 then None else NeedSplit_regions (enc splitKey) regions)"

text \<open>
  The split plan is a Go map from region id to keys. It is an association list with one
  entry for each id, in the order in which the ids were first inserted.
\<close>

fun getSplitKeys_keys ::
  "(bytes \<Rightarrow> bytes) \<Rightarrow> RegionInfo list \<Rightarrow> bytes list \<Rightarrow> (nat \<times> bytes list) list
     \<Rightarrow> (nat \<times> bytes list) list" where
  "getSplitKeys_keys enc regions [] splitKeyMap = splitKeyMap"
| "getSplitKeys_keys enc regions (key # checkKeys) splitKeyMap =
     (case NeedSplit enc key regions of
        None \<Rightarrow> getSplitKeys_keys enc regions checkKeys splitKeyMap
      | Some region \<Rightarrow>
          getSplitKeys_keys enc regions checkKeys
            (AList.update (GetId (Region region))
               ((case map_of splitKeyMap (GetId (Region region)) of
                   None \<Rightarrow> [] | Some splitKeys \<Rightarrow> splitKeys) @ [key])
               splitKeyMap))"

definition getSplitKeys ::
  "(bytes \<Rightarrow> bytes) \<Rightarrow> RewriteRules \<Rightarrow> Range list \<Rightarrow> RegionInfo list \<Rightarrow> (nat \<times> bytes list) list" where
  "getSplitKeys enc rewriteRules ranges regions =
     getSplitKeys_keys enc regions (map EndKey ranges) []"

section \<open>Scatter coordinator\<close>

definition hasRegion :: "'s collaborators \<Rightarrow> nat \<Rightarrow> 's world \<Rightarrow> (bool \<times> error option) \<times> 's world" where
  "hasRegion c regionID w =
     (case client_GetRegionByID c regionID w of
        (Inl err, w') \<Rightarrow> ((False, Some err), w')
      | (Inr regionInfo, w') \<Rightarrow> ((regionInfo \<noteq> None, None), w'))"

definition isScatterRegionFinished ::
  "'s collaborators \<Rightarrow> nat \<Rightarrow> 's world \<Rightarrow> (bool \<times> error option) \<times> 's world" where
  "isScatterRegionFinished c regionID w =
     (case client_GetOperator c regionID w of
        (Inl err, w') \<Rightarrow> ((False, Some err), w')
      | (Inr resp, w') \<Rightarrow>
          (case HeaderError resp of
             Some respErr \<Rightarrow>
               if respErr = REGION_NOT_FOUND then ((True, None), w')
               else ((False, Some (Annotatef ErrPDInvalidResponse ''get operator error'')), w')
           | None \<Rightarrow> ((Desc resp \<noteq> ''scatter-region'' \<or> Status resp \<noteq> RUNNING, None), w')))"

text \<open>
  The polling loops run at most a fixed number of times; the first argument after the
  region is the number of rounds left (the bound minus the loop counter).
\<close>

fun waitForSplit_rounds :: "'s collaborators \<Rightarrow> nat \<Rightarrow> nat \<Rightarrow> Duration \<Rightarrow> 's world \<Rightarrow> 's world" where
  "waitForSplit_rounds c regionID 0 interval w = w"
| "waitForSplit_rounds c regionID (Suc n) interval w =
     (case hasRegion c regionID w of
        ((ok, Some err), w') \<Rightarrow> w'
      | ((ok, None), w') \<Rightarrow>
          if ok then w'
          else waitForSplit_rounds c regionID n
                 (if SplitMaxCheckInterval < 2 * interval then SplitMaxCheckInterval else 2 * interval)
                 (time_Sleep c
                    (if SplitMaxCheckInterval < 2 * interval then SplitMaxCheckInterval else 2 * interval)
                    w'))"

definition waitForSplit :: "'s collaborators \<Rightarrow> nat \<Rightarrow> 's world \<Rightarrow> 's world" where
  "waitForSplit c regionID w =
     waitForSplit_rounds c regionID SplitCheckMaxRetryTimes SplitCheckInterval w"

fun waitForScatterRegion_rounds ::
  "'s collaborators \<Rightarrow> nat \<Rightarrow> nat \<Rightarrow> Duration \<Rightarrow> 's world \<Rightarrow> 's world" where
  "waitForScatterRegion_rounds c regionID 0 interval w = w"
| "waitForScatterRegion_rounds c regionID (Suc n) interval w =
     (case isScatterRegionFinished c regionID w of
        ((ok, Some err), w') \<Rightarrow> w'
      | ((ok, None), w') \<Rightarrow>
          if ok then w'
          else waitForScatterRegion_rounds c regionID n
                 (if ScatterMaxWaitInterval < 2 * interval then ScatterMaxWaitInterval else 2 * interval)
                 (time_Sleep c
                    (if ScatterMaxWaitInterval < 2 * interval then ScatterMaxWaitInterval else 2 * interval)
                    w'))"

definition waitForScatterRegion :: "'s collaborators \<Rightarrow> RegionInfo \<Rightarrow> 's world \<Rightarrow> 's world" where
  "waitForScatterRegion c regionInfo w =
     waitForScatterRegion_rounds c (GetId (Region regionInfo)) ScatterWaitMaxRetryTimes
       ScatterWaitInterval w"

text \<open>
  The pending set \<^verbatim>\<open>newRegionSet\<close> is a Go map from region id to region, here an
  association list with one entry for each id. One pass of the retried function visits
  the entries that are pending when the pass starts (the first list); it deletes only the
  entry it is visiting. Go leaves the order of the visits open; the model visits in the
  order of the list.
\<close>

fun scatterPass ::
  "'s collaborators \<Rightarrow> (nat \<times> RegionInfo) list \<Rightarrow> error option \<Rightarrow> (nat \<times> RegionInfo) list
     \<Rightarrow> 's world \<Rightarrow> error option \<times> (nat \<times> RegionInfo) list \<times> 's world" where
  "scatterPass c [] errs newRegionSet w = (errs, newRegionSet, w)"
| "scatterPass c ((regionID, region) # pending) errs newRegionSet w =
     (case client_ScatterRegion c region (waitForSplit c (GetId (Region region)) w) of
        (None, w') \<Rightarrow>
          scatterPass c pending (multierr_Append errs None)
            (AList.delete (GetId (Region region)) newRegionSet) w'
      | (Some err, w') \<Rightarrow>
          if \<not> pdErrorCanRetry c err
          then scatterPass c pending (multierr_Append errs (Some err))
                 (AList.delete (GetId (Region region)) newRegionSet) w'
          else scatterPass c pending (multierr_Append errs (Some err)) newRegionSet w')"

definition scatterAttempt ::
  "'s collaborators \<Rightarrow> (nat \<times> RegionInfo) list \<times> 's world
     \<Rightarrow> (error option, (nat \<times> RegionInfo) list \<times> 's world) outcome option" where
  "scatterAttempt c st =
     (case scatterPass c (fst st) None (fst st) (snd st) of
        (errs, newRegionSet, w') \<Rightarrow> Some (Return errs (newRegionSet, w')))"

definition ScatterRegionsWithBackoffer ::
  "'s collaborators \<Rightarrow> RegionInfo list \<Rightarrow> Backoffer \<Rightarrow> 's world \<Rightarrow> (unit, 's world) outcome option" where
  "ScatterRegionsWithBackoffer c newRegions backoffer w =
     (case WithRetry (\<lambda>d st. (fst st, time_Sleep c d (snd st))) (scatterAttempt c) backoffer None
             (fold (\<lambda>newRegion newRegionSet. AList.update (GetId (Region newRegion)) newRegion newRegionSet)
                newRegions [], w) of
        None \<Rightarrow> None
      | Some Panic \<Rightarrow> Some Panic
      | Some (Return err (newRegionSet, w')) \<Rightarrow> Some (Return () w'))"

definition ScatterRegions ::
  "'s collaborators \<Rightarrow> RegionInfo list \<Rightarrow> 's world \<Rightarrow> (unit, 's world) outcome option" where
  "ScatterRegions c newRegions w =
     ScatterRegionsWithBackoffer c newRegions (ExponentialBackoffer 7 (100 * Millisecond)) w"

section \<open>Split executor\<close>

definition splitAndScatterRegions ::
  "'s collaborators \<Rightarrow> RegionInfo \<Rightarrow> bytes list \<Rightarrow> 's world
     \<Rightarrow> (RegionInfo list \<times> error option, 's world) outcome option" where
  "splitAndScatterRegions c regionInfo keys w =
     (if length keys = 0 then Some (Return ([regionInfo], None) w)
      else (case client_BatchSplitRegions c regionInfo keys w of
              (Inl err, w') \<Rightarrow> Some (Return ([], Some err) w')
            | (Inr newRegions, w') \<Rightarrow>
                if newRegions = [] then Some Panic
                else (case ScatterRegions c
                             (if bytes_Equal (GetStartKey (Region (last newRegions))) (last keys)
                              then butlast newRegions else newRegions) w' of
                        None \<Rightarrow> None
                      | Some Panic \<Rightarrow> Some Panic
                      | Some (Return u w'') \<Rightarrow>
                          Some (Return
                            (if bytes_Equal (GetStartKey (Region (last newRegions))) (last keys)
                             then butlast newRegions else newRegions, None) w''))))"

text \<open>\<^verbatim>\<open>strings.Contains\<close>.\<close>

fun strings_Contains :: "string \<Rightarrow> string \<Rightarrow> bool" where
  "strings_Contains [] substr = (substr = [])"
| "strings_Contains (ch # s) substr =
     (take (length substr) (ch # s) = substr \<or> strings_Contains s substr)"

text \<open>
  How the loop over the split plan ends: all regions done (the \<^verbatim>\<open>break\<close> that follows it),
  \<^verbatim>\<open>continue SplitRegions\<close>, or a \<^verbatim>\<open>return\<close> of the error.
\<close>

datatype control = AllRegionsDone | ContinueSplitRegions | ReturnError error

text \<open>
  The loop over the entries of the split plan, with the variables of \<^verbatim>\<open>Split\<close> that it
  changes: \<^verbatim>\<open>interval\<close>, \<^verbatim>\<open>scatterRegions\<close>, \<^verbatim>\<open>errSplit\<close>. Go leaves the order of
  the entries open; the loop takes the list of entries as it is given. A region id
  missing from \<^verbatim>\<open>regionMap\<close> gives a nil region, whose dereference panics.
\<close>

fun splitRegions ::
  "'s collaborators \<Rightarrow> (nat \<times> RegionInfo) list \<Rightarrow> (nat \<times> bytes list) list \<Rightarrow> Duration
     \<Rightarrow> RegionInfo list \<Rightarrow> error option \<Rightarrow> 's world
     \<Rightarrow> (control \<times> Duration \<times> RegionInfo list \<times> error option, 's world) outcome option" where
  "splitRegions c regionMap [] interval scatterRegions errSplit w =
     Some (Return (AllRegionsDone, interval, scatterRegions, errSplit) w)"
| "splitRegions c regionMap ((regionID, keys) # splitKeyMap) interval scatterRegions errSplit w =
     (case map_of regionMap regionID of
        None \<Rightarrow> Some Panic
      | Some region \<Rightarrow>
          (case splitAndScatterRegions c region keys w of
             None \<Rightarrow> None
           | Some Panic \<Rightarrow> Some Panic
           | Some (Return (newRegions, Some err) w') \<Rightarrow>
               if strings_Contains (Message err) ''no valid key''
               then Some (Return (ReturnError err, interval, scatterRegions, Some err) w')
               else Some (Return
                      (ContinueSplitRegions,
                       if SplitMaxRetryInterval < 2 * interval then SplitMaxRetryInterval else 2 * interval,
                       scatterRegions, Some err)
                      (time_Sleep c
                         (if SplitMaxRetryInterval < 2 * interval then SplitMaxRetryInterval else 2 * interval)
                         w'))
           | Some (Return (newRegions, None) w') \<Rightarrow>
               splitRegions c regionMap splitKeyMap interval (scatterRegions @ newRegions) None
                 (onSplit keys w')))"

text \<open>
  The loop labelled \<^verbatim>\<open>SplitRegions\<close>; the first numeric argument is the number of
  attempts left (\<^verbatim>\<open>SplitRetryTimes - i\<close>). It ends with the error that \<^verbatim>\<open>Split\<close>
  returns from inside the loop (\<open>Inl\<close>), or falls out of the loop with
  \<^verbatim>\<open>scatterRegions\<close> and \<^verbatim>\<open>errSplit\<close> (\<open>Inr\<close>).
\<close>

fun SplitRegions_attempts ::
  "'s collaborators \<Rightarrow> RewriteRules \<Rightarrow> Range list \<Rightarrow> bytes \<Rightarrow> bytes \<Rightarrow> nat \<Rightarrow> Duration
     \<Rightarrow> RegionInfo list \<Rightarrow> error option \<Rightarrow> 's world
     \<Rightarrow> (error + RegionInfo list \<times> error option, 's world) outcome option" where
  "SplitRegions_attempts c rewriteRules sortedRanges minKey maxKey 0 interval scatterRegions errSplit w =
     Some (Return (Inr (scatterRegions, errSplit)) w)"
| "SplitRegions_attempts c rewriteRules sortedRanges minKey maxKey (Suc n) interval scatterRegions errSplit w =
     (case PaginateScanRegion c minKey maxKey ScanRegionPaginationLimit w of
        None \<Rightarrow> None
      | Some Panic \<Rightarrow> Some Panic
      | Some (Return (regions, Some errScan) w') \<Rightarrow>
          if Equal ErrPDBatchScanRegion errScan
          then SplitRegions_attempts c rewriteRules sortedRanges minKey maxKey n interval
                 scatterRegions errSplit (time_Sleep c Second w')
          else Some (Return (Inl errScan) w')
      | Some (Return (regions, None) w') \<Rightarrow>
          (case splitRegions c
                  (fold (\<lambda>region regionMap. AList.update (GetId (Region region)) region regionMap)
                     regions [])
                  (getSplitKeys (EncodeBytes c) rewriteRules sortedRanges regions)
                  interval scatterRegions errSplit w' of
             None \<Rightarrow> None
           | Some Panic \<Rightarrow> Some Panic
           | Some (Return (ReturnError err, interval', scatterRegions', errSplit') w'') \<Rightarrow>
               Some (Return (Inl err) w'')
           | Some (Return (ContinueSplitRegions, interval', scatterRegions', errSplit') w'') \<Rightarrow>
               SplitRegions_attempts c rewriteRules sortedRanges minKey maxKey n interval'
                 scatterRegions' errSplit' w''
           | Some (Return (AllRegionsDone, interval', scatterRegions', errSplit') w'') \<Rightarrow>
               Some (Return (Inr (scatterRegions', errSplit')) w'')))"

text \<open>
  The wait for the scattered regions, which stops once more than
  \<^verbatim>\<open>ScatterWaitUpperInterval\<close> has passed since it started.
\<close>

fun waitForScatterRegions ::
  "'s collaborators \<Rightarrow> Duration \<Rightarrow> RegionInfo list \<Rightarrow> 's world \<Rightarrow> 's world" where
  "waitForScatterRegions c startTime [] w = w"
| "waitForScatterRegions c startTime (region # scatterRegions) w =
     (if ScatterWaitUpperInterval < time_Now c (waitForScatterRegion c region w) - startTime
      then waitForScatterRegion c region w
      else waitForScatterRegions c startTime scatterRegions (waitForScatterRegion c region w))"

text \<open>
  \<^verbatim>\<open>Split\<close> returns an error or nil. Indexing the first of no sorted ranges panics.
\<close>

definition Split ::
  "'s collaborators \<Rightarrow> Range list \<Rightarrow> RewriteRules \<Rightarrow> 's world \<Rightarrow> (error option, 's world) outcome option" where
  "Split c ranges rewriteRules w =
     (if length ranges = 0 then Some (Return None w)
      else (case SortRanges c ranges rewriteRules of
              Inl errSplit \<Rightarrow> Some (Return (Some errSplit) w)
            | Inr sortedRanges \<Rightarrow>
                if sortedRanges = [] then Some Panic
                else (case SplitRegions_attempts c rewriteRules sortedRanges
                             (EncodeBytes c (StartKey (hd sortedRanges)))
                             (EncodeBytes c (EndKey (last sortedRanges)))
                             SplitRetryTimes SplitRetryInterval [] None w of
                        None \<Rightarrow> None
                      | Some Panic \<Rightarrow> Some Panic
                      | Some (Return (Inl err) w') \<Rightarrow> Some (Return (Some err) w')
                      | Some (Return (Inr (scatterRegions, Some errSplit)) w') \<Rightarrow>
                          Some (Return (Some errSplit) w')
                      | Some (Return (Inr (scatterRegions, None)) w') \<Rightarrow>
                          Some (Return None
                            (waitForScatterRegions c (time_Now c w') scatterRegions w')))))"

section \<open>The key encoding, for concrete inputs\<close>

text \<open>
  \<^verbatim>\<open>codec.EncodeBytes\<close> belongs to another package; the definitions above take it as a
  parameter. Where a theorem needs a concrete encoding, this is the memcomparable one:
  groups of 8 bytes, the last padded with zeros, each followed by a marker byte 0xFF
  minus the number of pad bytes.
\<close>

fun memcomparable :: "bytes \<Rightarrow> bytes" where
  "memcomparable data =
     (if 8 \<le> length data
      then take 8 data @ [0xFF] @ memcomparable (drop 8 data)
      else data @ replicate (8 - length data) 0 @ [0xFF - of_nat (8 - length data)])"

declare memcomparable.simps [simp del]

declare paginate.simps [code]

declare WithRetry.simps [simp del]

section \<open>Region lists that are topologies\<close>

text \<open>
  Not in the sources: the region lists of a real topology, in key order. Every region
  starts before it ends, only the last one may have the empty (open) end key, and every
  region ends where the next one starts.
\<close>

fun orderedTiling :: "RegionInfo list \<Rightarrow> bool" where
  "orderedTiling [] = True"
| "orderedTiling [r] =
     (GetEndKey (Region r) = [] \<or> bytes_Compare (GetStartKey (Region r)) (GetEndKey (Region r)) < 0)"
| "orderedTiling (r # r' # rs) =
     (bytes_Compare (GetStartKey (Region r)) (GetEndKey (Region r)) < 0
      \<and> GetEndKey (Region r) = GetStartKey (Region r')
      \<and> orderedTiling (r' # rs))"

text \<open>
  The spec's words for the plan of one region: the end keys of the ranges, in the order of
  the ranges, that the planner's test assigns to a region with that id.
\<close>

definition assignedTo :: "(bytes \<Rightarrow> bytes) \<Rightarrow> RegionInfo list \<Rightarrow> nat \<Rightarrow> bytes \<Rightarrow> bool" where
  "assignedTo enc regions regionID key =
     (case NeedSplit enc key regions of
        None \<Rightarrow> False
      | Some region \<Rightarrow> GetId (Region region) = regionID)"

definition plannedKeys :: "(bytes \<Rightarrow> bytes) \<Rightarrow> RegionInfo list \<Rightarrow> Range list \<Rightarrow> nat \<Rightarrow> bytes list" where
  "plannedKeys enc regions ranges regionID =
     filter (assignedTo enc regions regionID) (map EndKey ranges)"

text \<open>The number of scatter calls for a region in a trace.\<close>

definition scatterCalls :: "RegionInfo \<Rightarrow> event list \<Rightarrow> nat" where
  "scatterCalls region trace = length (filter (\<lambda>e. e = CallScatterRegion region) trace)"

text \<open>
  The spec's words for the retries running out: each of the attempts left ends in
  \<^verbatim>\<open>continue SplitRegions\<close>, after a scan that failed as inconsistent or after a split
  that failed with an error that is retried. The arguments are those of the loop.
\<close>

fun attemptsExhausted ::
  "'s collaborators \<Rightarrow> RewriteRules \<Rightarrow> Range list \<Rightarrow> bytes \<Rightarrow> bytes \<Rightarrow> nat \<Rightarrow> Duration
     \<Rightarrow> RegionInfo list \<Rightarrow> error option \<Rightarrow> 's world \<Rightarrow> bool" where
  "attemptsExhausted c rewriteRules sortedRanges minKey maxKey 0 interval scatterRegions errSplit w =
     True"
| "attemptsExhausted c rewriteRules sortedRanges minKey maxKey (Suc n) interval scatterRegions errSplit w =
     (case PaginateScanRegion c minKey maxKey ScanRegionPaginationLimit w of
        Some (Return (regions, Some errScan) w') \<Rightarrow>
          Equal ErrPDBatchScanRegion errScan
          \<and> attemptsExhausted c rewriteRules sortedRanges minKey maxKey n interval scatterRegions
                errSplit (time_Sleep c Second w')
      | Some (Return (regions, None) w') \<Rightarrow>
          (case splitRegions c
                  (fold (\<lambda>region regionMap. AList.update (GetId (Region region)) region regionMap)
                     regions [])
                  (getSplitKeys (EncodeBytes c) rewriteRules sortedRanges regions)
                  interval scatterRegions errSplit w' of
             Some (Return (ContinueSplitRegions, interval', scatterRegions', errSplit') w'') \<Rightarrow>
               attemptsExhausted c rewriteRules sortedRanges minKey maxKey n interval'
                 scatterRegions' errSplit' w''
           | _ \<Rightarrow> False)
      | _ \<Rightarrow> False)"

section \<open>A concrete cluster, for concrete inputs\<close>

definition regionAt :: "nat \<Rightarrow> bytes \<Rightarrow> bytes \<Rightarrow> RegionInfo" where
  "regionAt regionID startKey endKey =
     \<lparr>Region = \<lparr>GetId = regionID, GetStartKey = startKey, GetEndKey = endKey\<rparr>, Leader = None\<rparr>"


text \<open>A topology of two regions: from the empty key to m, and from m on.\<close>

definition splitAtM :: "RegionInfo list" where
  "splitAtM = [regionAt 1 [] (memcomparable [0x6D]), regionAt 2 (memcomparable [0x6D]) []]"

text \<open>
  A client over a clock as the state: every scan returns the same page, every split and
  every scatter call the same result, every region exists and has no running operator.
  Sleeping advances the clock. Ranges are taken as sorted already.
\<close>

definition staticClient ::
  "RegionInfo list \<Rightarrow> error + RegionInfo list \<Rightarrow> error option \<Rightarrow> int collaborators" where
  "staticClient page splitResult scatterResult =
     \<lparr>ScanRegions = (\<lambda>startKey endKey limit s. (Inr page, s)),
      GetRegionByID = (\<lambda>regionID s.
         (Inr (Some \<lparr>Region = \<lparr>GetId = regionID, GetStartKey = [], GetEndKey = []\<rparr>, Leader = None\<rparr>), s)),
      BatchSplitRegions = (\<lambda>regionInfo keys s. (splitResult, s)),
      ScatterRegion = (\<lambda>regionInfo s. (scatterResult, s)),
      GetOperator = (\<lambda>regionID s. (Inr \<lparr>HeaderError = None, Desc = ''scatter-region'', Status = SUCCESS\<rparr>, s)),
      Now = (\<lambda>s. s),
      Sleeping = (\<lambda>d s. s + d),
      EncodeBytes = memcomparable,
      SortRanges = (\<lambda>ranges rewriteRules. Inr ranges),
      pdErrorCanRetry = (\<lambda>err. strings_Contains (Message err) ''has no leader'')\<rparr>"

section \<open>The order of keys\<close>

lemma bytes_Compare_less: "(bytes_Compare a b < 0) = (a < b)"
  by (induction a b rule: bytes_Compare.induct) auto

lemma bytes_Compare_eq: "(bytes_Compare a b = 0) = (a = b)"
  by (induction a b rule: bytes_Compare.induct) auto

lemma bytes_Compare_greater: "(bytes_Compare a b > 0) = (b < a)"
  by (induction a b rule: bytes_Compare.induct) auto

lemma bytes_Compare_le: "(bytes_Compare a b \<le> 0) = (a \<le> b)"
  using bytes_Compare_greater [of a b] by auto

lemma bytes_Compare_ge: "(bytes_Compare a b \<ge> 0) = (b \<le> a)"
  using bytes_Compare_less [of a b] by auto

section \<open>Properties of the consistency check\<close>

lemma checkAdjacent_None:
  "(checkAdjacent cur rs = None) =
     (\<forall>i. Suc i < length (cur # rs) \<longrightarrow>
        GetEndKey (Region ((cur # rs) ! i)) = GetStartKey (Region ((cur # rs) ! Suc i)))"
proof (induction rs arbitrary: cur)
  case Nil
  show ?case by simp
next
  case (Cons r rs)
  show ?case
  proof (cases "GetEndKey (Region cur) = GetStartKey (Region r)")
    case False
    then have "\<not> (GetEndKey (Region ((cur # r # rs) ! 0)) = GetStartKey (Region ((cur # r # rs) ! Suc 0)))"
      by simp
    then show ?thesis using False by (auto simp: bytes_Equal_def)
  next
    case True
    have "(\<forall>i. Suc i < length (cur # r # rs) \<longrightarrow>
            GetEndKey (Region ((cur # r # rs) ! i)) = GetStartKey (Region ((cur # r # rs) ! Suc i)))
          = (\<forall>i. Suc i < length (r # rs) \<longrightarrow>
            GetEndKey (Region ((r # rs) ! i)) = GetStartKey (Region ((r # rs) ! Suc i)))"
    proof (intro iffI allI impI)
      fix i
      assume a: "\<forall>i. Suc i < length (cur # r # rs) \<longrightarrow>
            GetEndKey (Region ((cur # r # rs) ! i)) = GetStartKey (Region ((cur # r # rs) ! Suc i))"
        and b: "Suc i < length (r # rs)"
      from a b have "GetEndKey (Region ((cur # r # rs) ! Suc i)) = GetStartKey (Region ((cur # r # rs) ! Suc (Suc i)))"
        by (metis Suc_less_eq length_Cons)
      then show "GetEndKey (Region ((r # rs) ! i)) = GetStartKey (Region ((r # rs) ! Suc i))"
        by simp
    next
      fix i
      assume a: "\<forall>i. Suc i < length (r # rs) \<longrightarrow>
            GetEndKey (Region ((r # rs) ! i)) = GetStartKey (Region ((r # rs) ! Suc i))"
        and b: "Suc i < length (cur # r # rs)"
      show "GetEndKey (Region ((cur # r # rs) ! i)) = GetStartKey (Region ((cur # r # rs) ! Suc i))"
      proof (cases i)
        case 0
        then show ?thesis using True by simp
      next
        case (Suc j)
        with a b show ?thesis by simp
      qed
    qed
    with True Cons.IH [of r] show ?thesis by (simp add: bytes_Equal_def)
  qed
qed

lemma checkAdjacent_class: "checkAdjacent cur rs = Some e \<Longrightarrow> Equal ErrPDBatchScanRegion e"
  by (induction rs arbitrary: cur) (auto simp: Equal_def Annotatef_def split: if_splits)

text \<open>
  C1. The consistency check accepts a region list for the interval from startKey to endKey
  exactly when the list is not empty, the first region starts at or before startKey, the
  last region ends at or after endKey or has an empty (open) end key, and every region's
  end key is the start key of the next one. Every rejection is an error of the class
  ErrPDBatchScanRegion, the one the scan's retry policy retries.
\<close>

theorem checkRegionConsistency_tiling:
  "((checkRegionConsistency startKey endKey regions = None) =
      (regions \<noteq> []
       \<and> bytes_Compare (GetStartKey (Region (hd regions))) startKey \<le> 0
       \<and> (GetEndKey (Region (last regions)) = []
          \<or> bytes_Compare (GetEndKey (Region (last regions))) endKey \<ge> 0)
       \<and> (\<forall>i. Suc i < length regions \<longrightarrow>
             GetEndKey (Region (regions ! i)) = GetStartKey (Region (regions ! Suc i)))))
   \<and> (\<forall>e. checkRegionConsistency startKey endKey regions = Some e
          \<longrightarrow> Equal ErrPDBatchScanRegion e \<and> 0 < fst (NextBackoff newScanRegionBackoffer e))"
proof (cases regions)
  case Nil
  then show ?thesis
    by (simp add: checkRegionConsistency_def Equal_def Annotatef_def newScanRegionBackoffer_def
        Millisecond_def)
next
  case (Cons r rs)
  have adj: "(checkAdjacent r rs = None) =
     (\<forall>i. Suc i < length (r # rs) \<longrightarrow>
        GetEndKey (Region ((r # rs) ! i)) = GetStartKey (Region ((r # rs) ! Suc i)))"
    by (rule checkAdjacent_None)
  have cls: "\<And>e. checkAdjacent r rs = Some e \<Longrightarrow> Equal ErrPDBatchScanRegion e"
    by (rule checkAdjacent_class)
  have bo: "\<And>e. Equal ErrPDBatchScanRegion e \<Longrightarrow> 0 < fst (NextBackoff newScanRegionBackoffer e)"
    by (simp add: newScanRegionBackoffer_def Millisecond_def)
  have ann: "\<And>m. Equal ErrPDBatchScanRegion (Annotatef ErrPDBatchScanRegion m)"
    by (simp add: Equal_def Annotatef_def)
  show ?thesis
    unfolding Cons checkRegionConsistency_def
    using adj cls bo ann by (auto simp del: checkAdjacent.simps last.simps)
qed

theorem checkRegionConsistency_tiling_witness:
  "checkRegionConsistency [2] [9]
     [\<lparr>Region = \<lparr>GetId = 1, GetStartKey = [1], GetEndKey = [5]\<rparr>, Leader = None\<rparr>,
      \<lparr>Region = \<lparr>GetId = 2, GetStartKey = [5], GetEndKey = []\<rparr>, Leader = None\<rparr>] = None
   \<and> checkRegionConsistency [2] [9]
     [\<lparr>Region = \<lparr>GetId = 1, GetStartKey = [1], GetEndKey = [5]\<rparr>, Leader = None\<rparr>,
      \<lparr>Region = \<lparr>GetId = 2, GetStartKey = [6], GetEndKey = []\<rparr>, Leader = None\<rparr>]
     = Some (Err ErrPDBatchScanRegion ''region endKey not equal to next region startKey'')
   \<and> Equal ErrPDBatchScanRegion (Err ErrPDBatchScanRegion ''region endKey not equal to next region startKey'')"
  using checkRegionConsistency_tiling [of "[2]" "[9]"
     "[\<lparr>Region = \<lparr>GetId = 1, GetStartKey = [1], GetEndKey = [5]\<rparr>, Leader = None\<rparr>,
      \<lparr>Region = \<lparr>GetId = 2, GetStartKey = [6], GetEndKey = []\<rparr>, Leader = None\<rparr>]"]
  by (simp add: checkRegionConsistency_def bytes_Equal_def Annotatef_def)

text \<open>
  C6. The scan-layer retry policy starts with 3 attempts. On an inconsistent-scan error
  (class ErrPDBatchScanRegion) NextBackoff returns a delay of 500ms and takes one attempt
  away; on any other error it returns 0 and sets the remaining attempts to 0. So three
  inconsistent-scan errors in a row use the attempts up.
\<close>

theorem scanRegionBackoffer_policy:
  "Attempt newScanRegionBackoffer = 3
   \<and> (Equal ErrPDBatchScanRegion e \<longrightarrow>
        fst (NextBackoff (ScanRegionBackoffer n) e) = 500 * Millisecond
        \<and> snd (NextBackoff (ScanRegionBackoffer n) e) = ScanRegionBackoffer (n - 1)
        \<and> Attempt (snd (NextBackoff (ScanRegionBackoffer n) e)) = Attempt (ScanRegionBackoffer n) - 1)
   \<and> (\<not> Equal ErrPDBatchScanRegion e \<longrightarrow>
        fst (NextBackoff (ScanRegionBackoffer n) e) = 0
        \<and> snd (NextBackoff (ScanRegionBackoffer n) e) = ScanRegionBackoffer 0
        \<and> Attempt (snd (NextBackoff (ScanRegionBackoffer n) e)) = 0)
   \<and> (Equal ErrPDBatchScanRegion e1 \<and> Equal ErrPDBatchScanRegion e2 \<and> Equal ErrPDBatchScanRegion e3 \<longrightarrow>
        Attempt (snd (NextBackoff (snd (NextBackoff (snd (NextBackoff newScanRegionBackoffer e1)) e2)) e3)) = 0
        \<and> 0 < Attempt (snd (NextBackoff (snd (NextBackoff newScanRegionBackoffer e1)) e2)))"
  by (simp add: newScanRegionBackoffer_def)

theorem scanRegionBackoffer_policy_witness:
  "NextBackoff (ScanRegionBackoffer 3) (Err ErrPDBatchScanRegion ''scan region return empty result'')
     = (500000000, ScanRegionBackoffer 2)
   \<and> NextBackoff (ScanRegionBackoffer 3) (Err ErrOther ''rpc error'') = (0, ScanRegionBackoffer 0)
   \<and> Attempt newScanRegionBackoffer = 3"
  using scanRegionBackoffer_policy [of "Err ErrPDBatchScanRegion ''scan region return empty result''" 3]
    scanRegionBackoffer_policy [of "Err ErrOther ''rpc error''" 3]
  by (simp add: Equal_def Millisecond_def)

section \<open>Properties of the scanner\<close>

lemma WithRetry_success:
  "0 < Attempt b \<Longrightarrow> f st = Some (Return None st') \<Longrightarrow>
     WithRetry sleep f b acc st = Some (Return None st')"
  by (simp add: WithRetry.simps)

lemma WithRetry_error:
  "0 < Attempt b \<Longrightarrow> f st = Some (Return (Some err) st') \<Longrightarrow>
     WithRetry sleep f b acc st =
       WithRetry sleep f (snd (NextBackoff b err)) (multierr_Append acc (Some err))
         (sleep (fst (NextBackoff b err)) st')"
  by (simp add: WithRetry.simps)

lemma WithRetry_exhausted:
  "\<not> 0 < Attempt b \<Longrightarrow> WithRetry sleep f b acc st = Some (Return acc st)"
  by (simp add: WithRetry.simps)

lemma paginate_short_page:
  "client_ScanRegions c scanStartKey endKey limit w = (Inr batch, w') \<Longrightarrow> int (length batch) < limit \<Longrightarrow>
     paginate c endKey limit scanStartKey regions w = Some (Return (None, regions @ batch) w')"
  by (simp add: paginate.simps)

text \<open>
  C5. With a non-empty endKey and startKey at or after it, PaginateScanRegion returns the
  invalid-range error (class ErrRestoreInvalidRange) and leaves the world as it was: no
  scan call and no retry. With an empty endKey there is no such check on startKey: the
  scan runs, and a consistent first page that is shorter than the limit is the result.
\<close>

theorem PaginateScanRegion_range_guard:
  "(endKey \<noteq> [] \<and> 0 \<le> bytes_Compare startKey endKey \<longrightarrow>
      PaginateScanRegion c startKey endKey limit w =
        Some (Return ([], Some (Err ErrRestoreInvalidRange ''startKey >= endKey'')) w))
   \<and> (client_ScanRegions c startKey [] limit w = (Inr batch, w')
        \<and> int (length batch) < limit
        \<and> checkRegionConsistency startKey [] batch = None \<longrightarrow>
      PaginateScanRegion c startKey [] limit w = Some (Return (batch, None) w'))"
proof (intro conjI impI)
  assume "endKey \<noteq> [] \<and> 0 \<le> bytes_Compare startKey endKey"
  then show "PaginateScanRegion c startKey endKey limit w =
        Some (Return ([], Some (Err ErrRestoreInvalidRange ''startKey >= endKey'')) w)"
    by (simp add: PaginateScanRegion_def Annotatef_def)
next
  assume a: "client_ScanRegions c startKey [] limit w = (Inr batch, w')
        \<and> int (length batch) < limit
        \<and> checkRegionConsistency startKey [] batch = None"
  then have "paginate c [] limit startKey [] w = Some (Return (None, batch) w')"
    using paginate_short_page [of c startKey "[]" limit w batch w' "[]"] by simp
  with a have "scanAttempt c startKey [] limit ([], w) = Some (Return None (batch, w'))"
    by (simp add: scanAttempt_def)
  then have "WithRetry (\<lambda>d st. (fst st, time_Sleep c d (snd st))) (scanAttempt c startKey [] limit)
               newScanRegionBackoffer None ([], w) = Some (Return None (batch, w'))"
    by (rule WithRetry_success [rotated]) (simp add: newScanRegionBackoffer_def)
  then show "PaginateScanRegion c startKey [] limit w = Some (Return (batch, None) w')"
    by (simp add: PaginateScanRegion_def)
qed

theorem PaginateScanRegion_range_guard_witness:
  "PaginateScanRegion (staticClient [] (Inr []) None) [5] [5] 128 (0, []) =
      Some (Return ([], Some (Err ErrRestoreInvalidRange ''startKey >= endKey'')) (0, []))
   \<and> PaginateScanRegion
        (staticClient [\<lparr>Region = \<lparr>GetId = 1, GetStartKey = [], GetEndKey = []\<rparr>, Leader = None\<rparr>] (Inr []) None)
        [5] [] 128 (0, []) =
      Some (Return ([\<lparr>Region = \<lparr>GetId = 1, GetStartKey = [], GetEndKey = []\<rparr>, Leader = None\<rparr>], None)
        (0, [CallScanRegions [5] [] 128]))"
  using PaginateScanRegion_range_guard [of "[5]" "[5]" "staticClient [] (Inr []) None" 128 "(0, [])"]
    PaginateScanRegion_range_guard [of "[]" "[5]"
      "staticClient [\<lparr>Region = \<lparr>GetId = 1, GetStartKey = [], GetEndKey = []\<rparr>, Leader = None\<rparr>] (Inr []) None"
      128 "(0, [])"
      "[\<lparr>Region = \<lparr>GetId = 1, GetStartKey = [], GetEndKey = []\<rparr>, Leader = None\<rparr>]"
      "(0, [CallScanRegions [5] [] 128])"]
  by (simp add: staticClient_def client_ScanRegions_def checkRegionConsistency_def)


lemma multierr_Append_Some: "multierr_Append acc (Some err) \<noteq> None"
  by (cases acc) simp_all

lemma WithRetry_nil:
  "WithRetry sleep f b acc st = Some (Return None st') \<Longrightarrow>
     (acc = None \<and> \<not> 0 < Attempt b \<and> st' = st) \<or> (\<exists>st0. f st0 = Some (Return None st'))"
proof (induction sleep f b acc st rule: WithRetry.induct)
  case (1 sleep f b acc st)
  show ?case
  proof (cases "0 < Attempt b")
    case False
    with "1.prems" show ?thesis by (simp add: WithRetry_exhausted)
  next
    case True
    show ?thesis
    proof (cases "f st")
      case None
      with True "1.prems" show ?thesis by (simp add: WithRetry.simps)
    next
      case (Some out)
      show ?thesis
      proof (cases out)
        case Panic
        with Some True "1.prems" show ?thesis by (simp add: WithRetry.simps)
      next
        case (Return r1 st1)
        show ?thesis
        proof (cases r1)
          case None
          with Some Return True "1.prems" have "st' = st1" by (simp add: WithRetry_success)
          with Some Return None show ?thesis by blast
        next
          case (Some err)
          have eq: "WithRetry sleep f b acc st =
                WithRetry sleep f (snd (NextBackoff b err)) (multierr_Append acc (Some err))
                  (sleep (fst (NextBackoff b err)) st1)"
            using True \<open>f st = Some out\<close> Return Some by (simp add: WithRetry_error)
          from "1.IH" [OF True \<open>f st = Some out\<close> Return Some] "1.prems" eq
          show ?thesis by (simp add: multierr_Append_Some)
        qed
      qed
    qed
  qed
qed

text \<open>
  A region list that PaginateScanRegion returns without an error has passed the
  consistency check for the interval asked for.
\<close>

lemma PaginateScanRegion_accepts_tilings:
  "PaginateScanRegion c startKey endKey limit w = Some (Return (regions, None) w') \<Longrightarrow>
     checkRegionConsistency startKey endKey regions = None"
proof -
  assume a: "PaginateScanRegion c startKey endKey limit w = Some (Return (regions, None) w')"
  then have "WithRetry (\<lambda>d st. (fst st, time_Sleep c d (snd st)))
               (scanAttempt c startKey endKey limit) newScanRegionBackoffer None ([], w)
             = Some (Return None (regions, w'))"
    by (auto simp: PaginateScanRegion_def split: if_splits option.splits outcome.splits)
  from WithRetry_nil [OF this] obtain st0 where
    "scanAttempt c startKey endKey limit st0 = Some (Return None (regions, w'))"
    by (auto simp: newScanRegionBackoffer_def)
  then show ?thesis
    by (auto simp: scanAttempt_def split: option.splits outcome.splits prod.splits)
qed

section \<open>Properties of the split executor: no ranges\<close>

text \<open>
  C10. Split with no target ranges returns nil at once: the world is unchanged, so the
  client was not called (no scan, no split, no scatter) and nothing slept.
\<close>

theorem Split_no_ranges:
  "Split c [] rewriteRules w = Some (Return None w)"
  by (simp add: Split_def)

section \<open>Properties of the split-key planner\<close>

lemma ContainsInterior_order:
  "ContainsInterior r k =
     (GetStartKey (Region r) < k \<and> (GetEndKey (Region r) = [] \<or> k < GetEndKey (Region r)))"
  by (simp add: ContainsInterior_def bytes_Compare_less bytes_Compare_greater)

lemma orderedTiling_tail: "orderedTiling (a # rest) \<Longrightarrow> orderedTiling rest"
  by (cases rest) auto

lemma orderedTiling_later:
  "orderedTiling (a # rest) \<Longrightarrow> r \<in> set rest \<Longrightarrow>
     GetStartKey (Region a) < GetEndKey (Region a) \<and> GetEndKey (Region a) \<le> GetStartKey (Region r)"
proof (induction rest arbitrary: a)
  case Nil
  then show ?case by simp
next
  case (Cons b rest)
  from Cons.prems(1) have s: "GetStartKey (Region a) < GetEndKey (Region a)"
    and e: "GetEndKey (Region a) = GetStartKey (Region b)" and t: "orderedTiling (b # rest)"
    by (auto simp: bytes_Compare_less)
  show ?case
  proof (cases "r = b")
    case True
    with s e show ?thesis by simp
  next
    case False
    with Cons.prems(2) have "r \<in> set rest" by simp
    from Cons.IH [OF t this] e s show ?thesis by auto
  qed
qed

lemma NeedSplit_regions_sound:
  "NeedSplit_regions k regions = Some r \<Longrightarrow>
     r \<in> set regions \<and> ContainsInterior r k \<and> k \<noteq> GetStartKey (Region r)"
  by (induction regions) (auto simp: bytes_Equal_def ContainsInterior_order split: if_splits)

lemma NeedSplit_regions_boundary:
  "orderedTiling regions \<Longrightarrow> r \<in> set regions \<Longrightarrow>
     k = GetStartKey (Region r) \<or> k = GetEndKey (Region r) \<Longrightarrow>
     NeedSplit_regions k regions = None"
proof (induction regions)
  case Nil
  then show ?case by simp
next
  case (Cons a rest)
  show ?case
  proof (cases "k = GetStartKey (Region a)")
    case True
    then show ?thesis by (simp add: bytes_Equal_def)
  next
    case False
    have tl: "orderedTiling rest" using Cons.prems(1) by (rule orderedTiling_tail)
    show ?thesis
    proof (cases "r \<in> set rest")
      case True
      from orderedTiling_later [OF Cons.prems(1) True]
      have o: "GetStartKey (Region a) < GetEndKey (Region a)"
        "GetEndKey (Region a) \<le> GetStartKey (Region r)" by auto
      have "\<not> ContainsInterior a k"
      proof (cases "k = GetStartKey (Region r)")
        case True
        with o show ?thesis by (auto simp: ContainsInterior_order)
      next
        case False
        with Cons.prems(3) have ke: "k = GetEndKey (Region r)" by simp
        have "GetEndKey (Region r) = [] \<or> GetStartKey (Region r) < GetEndKey (Region r)"
          using True tl
        proof (induction rest)
          case Nil
          then show ?case by simp
        next
          case (Cons b rest')
          then show ?case
            by (cases rest') (auto simp: bytes_Compare_less dest: orderedTiling_tail)
        qed
        with ke o show ?thesis by (auto simp: ContainsInterior_order)
      qed
      with False Cons.IH [OF tl True Cons.prems(3)] show ?thesis
        by (simp add: bytes_Equal_def)
    next
      case notin: False
      with Cons.prems(2) have ra: "r = a" by simp
      with False Cons.prems(3) have ke: "k = GetEndKey (Region a)" by simp
      then have ni: "\<not> ContainsInterior a k" by (auto simp: ContainsInterior_order)
      have "NeedSplit_regions k rest = None"
      proof (cases rest)
        case Nil
        then show ?thesis by simp
      next
        case (Cons b rest')
        with Cons.prems(1) ke have "k = GetStartKey (Region b)"
          using \<open>orderedTiling (a # rest)\<close> by simp
        with Cons show ?thesis by (simp add: bytes_Equal_def)
      qed
      with False ni show ?thesis by (simp add: bytes_Equal_def)
    qed
  qed
qed


lemma getSplitKeys_keys_unchanged:
  "\<forall>key \<in> set checkKeys. NeedSplit enc key regions = None \<Longrightarrow>
     getSplitKeys_keys enc regions checkKeys splitKeyMap = splitKeyMap"
  by (induction checkKeys arbitrary: splitKeyMap) auto

lemma getSplitKeys_keys_lookup:
  "map_of (getSplitKeys_keys enc regions checkKeys splitKeyMap) regionID =
     (case map_of splitKeyMap regionID of
        None \<Rightarrow>
          if filter (assignedTo enc regions regionID) checkKeys = [] then None
          else Some (filter (assignedTo enc regions regionID) checkKeys)
      | Some splitKeys \<Rightarrow> Some (splitKeys @ filter (assignedTo enc regions regionID) checkKeys))"
proof (induction checkKeys arbitrary: splitKeyMap)
  case Nil
  then show ?case by (simp split: option.splits)
next
  case (Cons key checkKeys)
  show ?case
  proof (cases "NeedSplit enc key regions")
    case None
    then have "\<not> assignedTo enc regions regionID key" by (simp add: assignedTo_def)
    with None show ?thesis using Cons.IH [of splitKeyMap] by (simp split: option.splits)
  next
    case (Some region)
    then have a: "assignedTo enc regions regionID key = (GetId (Region region) = regionID)"
      by (simp add: assignedTo_def)
    show ?thesis
      using Some a Cons.IH [of "AList.update (GetId (Region region))
               ((case map_of splitKeyMap (GetId (Region region)) of
                   None \<Rightarrow> [] | Some splitKeys \<Rightarrow> splitKeys) @ [key]) splitKeyMap"]
      by (auto simp: update_conv' split: option.splits)
  qed
qed

lemma getSplitKeys_keys_distinct:
  "distinct (map fst splitKeyMap) \<Longrightarrow>
     distinct (map fst (getSplitKeys_keys enc regions checkKeys splitKeyMap))"
  by (induction checkKeys arbitrary: splitKeyMap) (auto simp: distinct_update split: option.splits)


lemma NeedSplit_sound:
  "NeedSplit enc key regions = Some region \<Longrightarrow>
     key \<noteq> [] \<and> region \<in> set regions \<and> ContainsInterior region (enc key)
     \<and> enc key \<noteq> GetStartKey (Region region)"
  using NeedSplit_regions_sound [of "enc key" regions region]
  by (auto simp: NeedSplit_def split: if_splits)

lemma NeedSplit_at_boundary:
  "orderedTiling regions \<Longrightarrow> r \<in> set regions \<Longrightarrow>
     enc key = GetStartKey (Region r) \<or> enc key = GetEndKey (Region r) \<Longrightarrow>
     NeedSplit enc key regions = None"
  using NeedSplit_regions_boundary [of regions r "enc key"] by (simp add: NeedSplit_def)


lemma getSplitKeys_lookup:
  "map_of (getSplitKeys enc rewriteRules ranges regions) regionID =
     (if plannedKeys enc regions ranges regionID = [] then None
      else Some (plannedKeys enc regions ranges regionID))"
  using getSplitKeys_keys_lookup [of enc regions "map EndKey ranges" "[]" regionID]
  by (simp add: getSplitKeys_def plannedKeys_def)

text \<open>
  C7. The planner on an already-split topology. A key of zero length never needs a split,
  on any region list. On the region list of a topology (an ordered tiling: every region
  starts before it ends and ends where the next one starts), a key whose encoding is the
  start key (or the end key) of a region of the list needs no split, and the plan is empty
  when the end key of every range is empty or such a boundary.
\<close>

theorem NeedSplit_boundary_keys:
  "NeedSplit enc [] regions = None
   \<and> (orderedTiling regions \<and> r \<in> set regions
        \<and> (enc key = GetStartKey (Region r) \<or> enc key = GetEndKey (Region r))
      \<longrightarrow> NeedSplit enc key regions = None)
   \<and> (orderedTiling regions
        \<and> (\<forall>rg \<in> set ranges. EndKey rg = []
              \<or> (\<exists>r \<in> set regions. enc (EndKey rg) = GetStartKey (Region r)
                                     \<or> enc (EndKey rg) = GetEndKey (Region r)))
      \<longrightarrow> getSplitKeys enc rewriteRules ranges regions = [])"
proof (intro conjI impI)
  show "NeedSplit enc [] regions = None" by (simp add: NeedSplit_def)
next
  assume "orderedTiling regions \<and> r \<in> set regions
        \<and> (enc key = GetStartKey (Region r) \<or> enc key = GetEndKey (Region r))"
  then show "NeedSplit enc key regions = None" using NeedSplit_at_boundary by blast
next
  assume a: "orderedTiling regions
        \<and> (\<forall>rg \<in> set ranges. EndKey rg = []
              \<or> (\<exists>r \<in> set regions. enc (EndKey rg) = GetStartKey (Region r)
                                     \<or> enc (EndKey rg) = GetEndKey (Region r)))"
  have "\<forall>key \<in> set (map EndKey ranges). NeedSplit enc key regions = None"
  proof
    fix key assume "key \<in> set (map EndKey ranges)"
    then obtain rg where rg: "rg \<in> set ranges" "key = EndKey rg" by auto
    show "NeedSplit enc key regions = None"
    proof (cases "key = []")
      case True
      then show ?thesis by (simp add: NeedSplit_def)
    next
      case False
      with a rg obtain r where "r \<in> set regions"
        "enc key = GetStartKey (Region r) \<or> enc key = GetEndKey (Region r)" by blast
      with a show ?thesis using NeedSplit_at_boundary by blast
    qed
  qed
  then show "getSplitKeys enc rewriteRules ranges regions = []"
    unfolding getSplitKeys_def by (rule getSplitKeys_keys_unchanged)
qed

lemma memcomparable_m: "memcomparable [0x6D] = [0x6D, 0, 0, 0, 0, 0, 0, 0, 0xF8]"
  by code_simp




theorem NeedSplit_boundary_keys_witness:
  "orderedTiling splitAtM
   \<and> NeedSplit memcomparable [0x6D] splitAtM = None
   \<and> getSplitKeys memcomparable []
        [\<lparr>StartKey = [], EndKey = [0x6D]\<rparr>, \<lparr>StartKey = [0x6D], EndKey = []\<rparr>] splitAtM = []"
  using NeedSplit_boundary_keys [of memcomparable splitAtM "regionAt 2 (memcomparable [0x6D]) []"
      "[0x6D]" "[\<lparr>StartKey = [], EndKey = [0x6D]\<rparr>, \<lparr>StartKey = [0x6D], EndKey = []\<rparr>]" "[]"]
  by (simp add: splitAtM_def regionAt_def memcomparable_m)




section \<open>Properties of retrying\<close>

lemma WithRetry_returns:
  "\<forall>st. \<exists>r st'. f st = Some (Return r st') \<Longrightarrow>
     \<exists>r st'. WithRetry sleep f b acc st = Some (Return r st')"
proof (induction sleep f b acc st rule: WithRetry.induct)
  case (1 sleep f b acc st)
  show ?case
  proof (cases "0 < Attempt b")
    case False
    then show ?thesis by (simp add: WithRetry_exhausted)
  next
    case True
    from "1.prems" obtain r st' where fst: "f st = Some (Return r st')" by blast
    show ?thesis
    proof (cases r)
      case None
      with True fst show ?thesis by (simp add: WithRetry_success)
    next
      case (Some err)
      with True fst "1.IH" [of "Return r st'" r st' err] "1.prems" show ?thesis
        by (simp add: WithRetry_error)
    qed
  qed
qed

lemma WithRetry_invariant:
  "\<forall>st r st'. I st \<longrightarrow> f st = Some (Return r st') \<longrightarrow> I st' \<and> m st' \<le> m st + (1::nat) \<Longrightarrow>
   \<forall>d st. I st \<longrightarrow> I (sleep d st) \<and> m (sleep d st) = m st \<Longrightarrow>
   I st \<Longrightarrow> WithRetry sleep f b acc st = Some (Return r st') \<Longrightarrow>
     I st' \<and> m st' \<le> m st + nat (Attempt b)"
proof (induction sleep f b acc st rule: WithRetry.induct)
  case (1 sleep f b acc st)
  note step = "1.prems"(1) and slp = "1.prems"(2) and ist = "1.prems"(3) and res = "1.prems"(4)
  show ?case
  proof (cases "0 < Attempt b")
    case False
    with ist res show ?thesis by (simp add: WithRetry_exhausted)
  next
    case True
    show ?thesis
    proof (cases "f st")
      case None
      with True res show ?thesis by (simp add: WithRetry.simps)
    next
      case (Some out)
      show ?thesis
      proof (cases out)
        case Panic
        with Some True res show ?thesis by (simp add: WithRetry.simps)
      next
        case (Return r1 st1)
        from step ist Some Return have i1: "I st1" and m1: "m st1 \<le> m st + 1"
          by blast+
        show ?thesis
        proof (cases r1)
          case None
          with Some Return True res i1 m1 show ?thesis
            by (auto simp: WithRetry_success)
        next
          case (Some err)
          let ?st2 = "sleep (fst (NextBackoff b err)) st1"
          from slp i1 have i2: "I ?st2" and m2: "m ?st2 = m st1" by blast+
          have eq: "WithRetry sleep f b acc st =
                WithRetry sleep f (snd (NextBackoff b err)) (multierr_Append acc (Some err)) ?st2"
            using True \<open>f st = Some out\<close> Return Some by (simp add: WithRetry_error)
          from "1.IH" [OF True \<open>f st = Some out\<close> Return Some step slp i2] res eq
          have "I st' \<and> m st' \<le> m ?st2 + nat (Attempt (snd (NextBackoff b err)))" by simp
          moreover have "Attempt (snd (NextBackoff b err)) < Attempt b"
            using True by (rule NextBackoff_decreases)
          ultimately show ?thesis using m1 m2 True by auto
        qed
      qed
    qed
  qed
qed


section \<open>Properties of the scatter coordinator\<close>

lemma hasRegion_scatterCalls:
  "scatterCalls r (snd (snd (hasRegion c regionID w))) = scatterCalls r (snd w)"
  by (simp add: hasRegion_def client_GetRegionByID_def scatterCalls_def split: prod.splits sum.splits)

lemma time_Sleep_scatterCalls:
  "scatterCalls r (snd (time_Sleep c d w)) = scatterCalls r (snd w)"
  by (simp add: time_Sleep_def scatterCalls_def)

lemma waitForSplit_rounds_scatterCalls:
  "scatterCalls r (snd (waitForSplit_rounds c regionID n interval w)) = scatterCalls r (snd w)"
proof (induction n arbitrary: interval w)
  case 0
  show ?case by simp
next
  case (Suc n)
  obtain ok e w' where h: "hasRegion c regionID w = ((ok, e), w')"
    by (metis surj_pair)
  with hasRegion_scatterCalls [of r c regionID w]
  have w': "scatterCalls r (snd w') = scatterCalls r (snd w)" by simp
  show ?case
  proof (cases e)
    case (Some err)
    with h w' show ?thesis by simp
  next
    case None
    with h w' Suc.IH show ?thesis by (simp add: time_Sleep_scatterCalls)
  qed
qed

lemma waitForSplit_scatterCalls:
  "scatterCalls r (snd (waitForSplit c regionID w)) = scatterCalls r (snd w)"
  by (simp add: waitForSplit_def waitForSplit_rounds_scatterCalls)

lemma client_ScatterRegion_scatterCalls:
  "client_ScatterRegion c region w = (res, w') \<Longrightarrow>
     scatterCalls r (snd w') = scatterCalls r (snd w) + (if region = r then 1 else 0)"
  by (auto simp: client_ScatterRegion_def scatterCalls_def split: prod.splits)

lemma delete_subset: "set (AList.delete k al) \<subseteq> set al"
  by (induction al) auto

lemma delete_distinct_values: "distinct (map snd al) \<Longrightarrow> distinct (map snd (AList.delete k al))"
proof (induction al)
  case Nil
  show ?case by simp
next
  case (Cons p al)
  then show ?case using delete_subset [of k al] by auto
qed

lemma scatterPass_effect:
  "scatterPass c pending errs newRegionSet w = (errs', newRegionSet', w') \<Longrightarrow>
     scatterCalls r (snd w') = scatterCalls r (snd w) + count_list (map snd pending) r
     \<and> set newRegionSet' \<subseteq> set newRegionSet
     \<and> (distinct (map snd newRegionSet) \<longrightarrow> distinct (map snd newRegionSet'))"
proof (induction pending arbitrary: errs newRegionSet w)
  case Nil
  then show ?case by simp
next
  case (Cons entry pending)
  obtain regionID region where entry: "entry = (regionID, region)" by (cases entry)
  obtain res w1 where sc:
    "client_ScatterRegion c region (waitForSplit c (GetId (Region region)) w) = (res, w1)"
    by (metis surj_pair)
  from client_ScatterRegion_scatterCalls [OF sc, of r]
  have w1: "scatterCalls r (snd w1) = scatterCalls r (snd w) + (if region = r then 1 else 0)"
    by (simp add: waitForSplit_scatterCalls)
  show ?case
  proof (cases "res = None \<or> \<not> pdErrorCanRetry c (the res)")
    case True
    with Cons.prems entry sc
    have "scatterPass c pending (multierr_Append errs res)
            (AList.delete (GetId (Region region)) newRegionSet) w1 = (errs', newRegionSet', w')"
      by (auto split: option.splits)
    from Cons.IH [OF this] w1 entry show ?thesis
      using delete_subset [of "GetId (Region region)" newRegionSet]
        delete_distinct_values [of newRegionSet "GetId (Region region)"]
      by auto
  next
    case False
    with Cons.prems entry sc
    have "scatterPass c pending (multierr_Append errs res) newRegionSet w1 = (errs', newRegionSet', w')"
      by (auto split: option.splits)
    from Cons.IH [OF this] w1 entry show ?thesis by auto
  qed
qed

lemma count_list_distinct: "distinct xs \<Longrightarrow> count_list xs x \<le> 1"
  by (induction xs) (auto simp: count_list_0_iff)

lemma newRegionSet_fold:
  "distinct (map fst acc) \<Longrightarrow> \<forall>(k, v) \<in> set acc. k = GetId (Region v) \<and> v \<in> A \<Longrightarrow>
   set newRegions \<subseteq> A \<Longrightarrow>
     distinct (map fst (fold (\<lambda>newRegion newRegionSet.
        AList.update (GetId (Region newRegion)) newRegion newRegionSet) newRegions acc))
     \<and> (\<forall>(k, v) \<in> set (fold (\<lambda>newRegion newRegionSet.
        AList.update (GetId (Region newRegion)) newRegion newRegionSet) newRegions acc).
          k = GetId (Region v) \<and> v \<in> A)"
proof (induction newRegions arbitrary: acc)
  case Nil
  then show ?case by simp
next
  case (Cons x newRegions)
  let ?acc = "AList.update (GetId (Region x)) x acc"
  have d: "distinct (map fst ?acc)" using Cons.prems(1) by (simp add: distinct_update)
  have kv: "\<forall>(k, v) \<in> set ?acc. k = GetId (Region v) \<and> v \<in> A"
  proof (clarify)
    fix k v assume "(k, v) \<in> set ?acc"
    with d have "map_of ?acc k = Some v" by simp
    then have "(k = GetId (Region x) \<and> v = x) \<or> map_of acc k = Some v"
      by (auto simp: update_conv' split: if_splits)
    then show "k = GetId (Region v) \<and> v \<in> A"
      using Cons.prems by (auto dest: map_of_SomeD)
  qed
  have sub: "set newRegions \<subseteq> A" using Cons.prems(3) by simp
  from Cons.IH [OF d kv sub] show ?case by simp
qed

lemma keyed_by_id_values:
  "\<forall>(k, v) \<in> set S. k = GetId (Region v) \<and> v \<in> A \<Longrightarrow> distinct (map fst S) \<Longrightarrow>
     distinct (map snd S) \<and> snd ` set S \<subseteq> A"
proof -
  assume kv: "\<forall>(k, v) \<in> set S. k = GetId (Region v) \<and> v \<in> A" and d: "distinct (map fst S)"
  from kv have "map fst S = map (\<lambda>v. GetId (Region v)) (map snd S)" by auto
  with d have "distinct (map (\<lambda>v. GetId (Region v)) (map snd S))" by (simp only:)
  then have "distinct (map snd S)" by (simp only: distinct_map)
  moreover from kv have "snd ` set S \<subseteq> A" by auto
  ultimately show ?thesis by (rule conjI)
qed

lemma newRegionSet_values:
  "distinct (map snd (fold (\<lambda>newRegion newRegionSet.
        AList.update (GetId (Region newRegion)) newRegion newRegionSet) newRegions []))
   \<and> snd ` set (fold (\<lambda>newRegion newRegionSet.
        AList.update (GetId (Region newRegion)) newRegion newRegionSet) newRegions []) \<subseteq> set newRegions"
proof (rule keyed_by_id_values)
  show "\<forall>(k, v) \<in> set (fold (\<lambda>newRegion newRegionSet.
        AList.update (GetId (Region newRegion)) newRegion newRegionSet) newRegions []).
          k = GetId (Region v) \<and> v \<in> set newRegions"
    using newRegionSet_fold [of "[]" "set newRegions" newRegions] by simp
  show "distinct (map fst (fold (\<lambda>newRegion newRegionSet.
        AList.update (GetId (Region newRegion)) newRegion newRegionSet) newRegions []))"
    using newRegionSet_fold [of "[]" "set newRegions" newRegions] by simp
qed


lemma scatterAttempt_returns: "\<exists>r st'. scatterAttempt c st = Some (Return r st')"
  by (simp add: scatterAttempt_def split: prod.splits)

lemma scatterAttempt_effect:
  "scatterAttempt c st = Some (Return errs st') \<Longrightarrow>
     scatterCalls r (snd (snd st')) = scatterCalls r (snd (snd st)) + count_list (map snd (fst st)) r
     \<and> set (fst st') \<subseteq> set (fst st)
     \<and> (distinct (map snd (fst st)) \<longrightarrow> distinct (map snd (fst st')))"
proof -
  assume a: "scatterAttempt c st = Some (Return errs st')"
  obtain e S' w' where p: "scatterPass c (fst st) None (fst st) (snd st) = (e, S', w')"
    by (metis surj_pair)
  with a have "st' = (S', w')" by (simp add: scatterAttempt_def)
  with scatterPass_effect [OF p, of r] show ?thesis by simp
qed

lemma ScatterRegionsWithBackoffer_returns:
  "\<exists>w'. ScatterRegionsWithBackoffer c newRegions b w = Some (Return () w')"
proof -
  have "\<forall>st. \<exists>r st'. scatterAttempt c st = Some (Return r st')"
    using scatterAttempt_returns by blast
  from WithRetry_returns [OF this] obtain r st' where
    "WithRetry (\<lambda>d st. (fst st, time_Sleep c d (snd st))) (scatterAttempt c) b None
       (fold (\<lambda>newRegion newRegionSet. AList.update (GetId (Region newRegion)) newRegion newRegionSet)
          newRegions [], w) = Some (Return r st')"
    by blast
  then show ?thesis by (cases st') (simp add: ScatterRegionsWithBackoffer_def)
qed

lemma ScatterRegionsWithBackoffer_calls:
  assumes res: "ScatterRegionsWithBackoffer c newRegions b w = Some (Return u w')"
  shows "scatterCalls r (snd w') \<le> scatterCalls r (snd w) + nat (Attempt b)"
    and "r \<notin> set newRegions \<Longrightarrow> scatterCalls r (snd w') = scatterCalls r (snd w)"
proof -
  let ?S = "fold (\<lambda>newRegion newRegionSet. AList.update (GetId (Region newRegion)) newRegion newRegionSet)
          newRegions []"
  let ?sleep = "\<lambda>d st. (fst st, time_Sleep c d (snd st))"
  from res obtain err S' where wr:
    "WithRetry ?sleep (scatterAttempt c) b None (?S, w) = Some (Return err (S', w'))"
    by (auto simp: ScatterRegionsWithBackoffer_def split: option.splits outcome.splits prod.splits)
  from newRegionSet_values [of newRegions]
  have d: "distinct (map snd ?S)" and sub: "snd ` set ?S \<subseteq> set newRegions" by auto
  let ?I = "\<lambda>st. distinct (map snd (fst st))"
  let ?m = "\<lambda>st. scatterCalls r (snd (snd st))"
  have step: "\<forall>st r' st'. ?I st \<longrightarrow> scatterAttempt c st = Some (Return r' st') \<longrightarrow>
                ?I st' \<and> ?m st' \<le> ?m st + (1::nat)"
  proof (intro allI impI)
    fix st r' st'
    assume i: "?I st" and a: "scatterAttempt c st = Some (Return r' st')"
    from scatterAttempt_effect [OF a, of r] i count_list_distinct [of "map snd (fst st)" r]
    show "?I st' \<and> ?m st' \<le> ?m st + (1::nat)" by simp
  qed
  have slp: "\<forall>d st. ?I st \<longrightarrow> ?I (?sleep d st) \<and> ?m (?sleep d st) = ?m st"
    by (simp add: time_Sleep_scatterCalls)
  from WithRetry_invariant [of ?I "scatterAttempt c" ?m ?sleep, OF step slp _ wr] d
  show "scatterCalls r (snd w') \<le> scatterCalls r (snd w) + nat (Attempt b)" by simp
next
  assume notin: "r \<notin> set newRegions"
  let ?S = "fold (\<lambda>newRegion newRegionSet. AList.update (GetId (Region newRegion)) newRegion newRegionSet)
          newRegions []"
  let ?sleep = "\<lambda>d st. (fst st, time_Sleep c d (snd st))"
  from res obtain err S' where wr:
    "WithRetry ?sleep (scatterAttempt c) b None (?S, w) = Some (Return err (S', w'))"
    by (auto simp: ScatterRegionsWithBackoffer_def split: option.splits outcome.splits prod.splits)
  from newRegionSet_values [of newRegions] notin
  have sub: "r \<notin> snd ` set ?S" by auto
  let ?I = "\<lambda>st. r \<notin> snd ` set (fst st) \<and> scatterCalls r (snd (snd st)) = scatterCalls r (snd w)"
  let ?m = "\<lambda>st. 0::nat"
  have step: "\<forall>st r' st'. ?I st \<longrightarrow> scatterAttempt c st = Some (Return r' st') \<longrightarrow>
                ?I st' \<and> ?m st' \<le> ?m st + (1::nat)"
  proof (intro allI impI)
    fix st r' st'
    assume i: "?I st" and a: "scatterAttempt c st = Some (Return r' st')"
    from i have "count_list (map snd (fst st)) r = 0" by (simp add: count_list_0_iff)
    with scatterAttempt_effect [OF a, of r] i
    show "?I st' \<and> ?m st' \<le> ?m st + (1::nat)" by auto
  qed
  have slp: "\<forall>d st. ?I st \<longrightarrow> ?I (?sleep d st) \<and> ?m (?sleep d st) = ?m st"
    by (simp add: time_Sleep_scatterCalls)
  from WithRetry_invariant [of ?I "scatterAttempt c" ?m ?sleep, OF step slp _ wr] sub
  show "scatterCalls r (snd w') = scatterCalls r (snd w)" by simp
qed

lemma ScatterRegions_returns: "\<exists>w'. ScatterRegions c newRegions w = Some (Return () w')"
  unfolding ScatterRegions_def by (rule ScatterRegionsWithBackoffer_returns)

lemma splitAndScatterRegions_success:
  assumes "keys \<noteq> []" and "client_BatchSplitRegions c regionInfo keys w = (Inr newRegions, w1)"
    and "newRegions \<noteq> []"
    and "scatterSet = (if GetStartKey (Region (last newRegions)) = last keys
                       then butlast newRegions else newRegions)"
  shows "\<exists>w2. ScatterRegions c scatterSet w1 = Some (Return () w2)
           \<and> splitAndScatterRegions c regionInfo keys w = Some (Return (scatterSet, None) w2)"
proof -
  from ScatterRegions_returns obtain w2 where "ScatterRegions c scatterSet w1 = Some (Return () w2)"
    by blast
  with assms show ?thesis by (auto simp: splitAndScatterRegions_def bytes_Equal_def)
qed

text \<open>
  C2. When the batch split of a region at a non-empty list of keys succeeds with the new
  regions, the list that is scattered, returned and added to the regions accumulated by
  Split is the list of new regions without its last element exactly when the start key
  of that last region is the last requested split key, and the whole list otherwise.
  (The split RPC returning no region at all makes the Go code panic on the index.)
\<close>

theorem splitAndScatterRegions_scatter_set:
  "keys \<noteq> [] \<and> client_BatchSplitRegions c regionInfo keys w = (Inr newRegions, w1)
     \<and> newRegions \<noteq> []
     \<and> scatterSet = (if GetStartKey (Region (last newRegions)) = last keys
                      then butlast newRegions else newRegions)
   \<longrightarrow> (\<exists>w2. ScatterRegions c scatterSet w1 = Some (Return () w2)
           \<and> splitAndScatterRegions c regionInfo keys w = Some (Return (scatterSet, None) w2)
           \<and> (map_of regionMap regionID = Some regionInfo \<longrightarrow>
                splitRegions c regionMap ((regionID, keys) # splitKeyMap) interval scatterRegions
                  errSplit w =
                splitRegions c regionMap splitKeyMap interval (scatterRegions @ scatterSet) None
                  (onSplit keys w2)))"
proof
  assume a: "keys \<noteq> [] \<and> client_BatchSplitRegions c regionInfo keys w = (Inr newRegions, w1)
     \<and> newRegions \<noteq> []
     \<and> scatterSet = (if GetStartKey (Region (last newRegions)) = last keys
                      then butlast newRegions else newRegions)"
  then obtain w2 where s: "ScatterRegions c scatterSet w1 = Some (Return () w2)"
    and r: "splitAndScatterRegions c regionInfo keys w = Some (Return (scatterSet, None) w2)"
    using splitAndScatterRegions_success [of keys c regionInfo w newRegions w1 scatterSet] by blast
  from r have "map_of regionMap regionID = Some regionInfo \<longrightarrow>
                splitRegions c regionMap ((regionID, keys) # splitKeyMap) interval scatterRegions
                  errSplit w =
                splitRegions c regionMap splitKeyMap interval (scatterRegions @ scatterSet) None
                  (onSplit keys w2)"
    by simp
  with s r show "\<exists>w2. ScatterRegions c scatterSet w1 = Some (Return () w2)
           \<and> splitAndScatterRegions c regionInfo keys w = Some (Return (scatterSet, None) w2)
           \<and> (map_of regionMap regionID = Some regionInfo \<longrightarrow>
                splitRegions c regionMap ((regionID, keys) # splitKeyMap) interval scatterRegions
                  errSplit w =
                splitRegions c regionMap splitKeyMap interval (scatterRegions @ scatterSet) None
                  (onSplit keys w2))"
    by blast
qed

theorem splitAndScatterRegions_scatter_set_witness:
  "splitAndScatterRegions
      (staticClient [] (Inr [regionAt 5 [0x61] [0x6D], regionAt 6 [0x6D] [0x7A]]) None)
      (regionAt 1 [0x61] [0x7A]) [[0x6D]] (0, []) =
     Some (Return ([regionAt 5 [0x61] [0x6D]], None)
       (0, [CallBatchSplitRegions (regionAt 1 [0x61] [0x7A]) [[0x6D]], CallGetRegionByID 5,
            CallScatterRegion (regionAt 5 [0x61] [0x6D])]))
   \<and> splitAndScatterRegions
      (staticClient [] (Inr [regionAt 5 [0x61] [0x6D], regionAt 6 [0x6E] [0x7A]]) None)
      (regionAt 1 [0x61] [0x7A]) [[0x6D]] (0, []) =
     Some (Return ([regionAt 5 [0x61] [0x6D], regionAt 6 [0x6E] [0x7A]], None)
       (0, [CallBatchSplitRegions (regionAt 1 [0x61] [0x7A]) [[0x6D]], CallGetRegionByID 5,
            CallScatterRegion (regionAt 5 [0x61] [0x6D]), CallGetRegionByID 6,
            CallScatterRegion (regionAt 6 [0x6E] [0x7A])]))"
proof -
  have s1: "ScatterRegions
      (staticClient [] (Inr [regionAt 5 [0x61] [0x6D], regionAt 6 [0x6D] [0x7A]]) None)
      [regionAt 5 [0x61] [0x6D]]
      (0, [CallBatchSplitRegions (regionAt 1 [0x61] [0x7A]) [[0x6D]]]) =
     Some (Return ()
       (0, [CallBatchSplitRegions (regionAt 1 [0x61] [0x7A]) [[0x6D]], CallGetRegionByID 5,
            CallScatterRegion (regionAt 5 [0x61] [0x6D])]))"
    by code_simp
  have s2: "ScatterRegions
      (staticClient [] (Inr [regionAt 5 [0x61] [0x6D], regionAt 6 [0x6E] [0x7A]]) None)
      [regionAt 5 [0x61] [0x6D], regionAt 6 [0x6E] [0x7A]]
      (0, [CallBatchSplitRegions (regionAt 1 [0x61] [0x7A]) [[0x6D]]]) =
     Some (Return ()
       (0, [CallBatchSplitRegions (regionAt 1 [0x61] [0x7A]) [[0x6D]], CallGetRegionByID 5,
            CallScatterRegion (regionAt 5 [0x61] [0x6D]), CallGetRegionByID 6,
            CallScatterRegion (regionAt 6 [0x6E] [0x7A])]))"
    by code_simp
  from splitAndScatterRegions_scatter_set [of "[[0x6D]]"
      "staticClient [] (Inr [regionAt 5 [0x61] [0x6D], regionAt 6 [0x6D] [0x7A]]) None"
      "regionAt 1 [0x61] [0x7A]" "(0, [])"
      "[regionAt 5 [0x61] [0x6D], regionAt 6 [0x6D] [0x7A]]"
      "(0, [CallBatchSplitRegions (regionAt 1 [0x61] [0x7A]) [[0x6D]]])"
      "[regionAt 5 [0x61] [0x6D]]"] s1
  have a: "splitAndScatterRegions
      (staticClient [] (Inr [regionAt 5 [0x61] [0x6D], regionAt 6 [0x6D] [0x7A]]) None)
      (regionAt 1 [0x61] [0x7A]) [[0x6D]] (0, []) =
     Some (Return ([regionAt 5 [0x61] [0x6D]], None)
       (0, [CallBatchSplitRegions (regionAt 1 [0x61] [0x7A]) [[0x6D]], CallGetRegionByID 5,
            CallScatterRegion (regionAt 5 [0x61] [0x6D])]))"
    by (auto simp: staticClient_def client_BatchSplitRegions_def regionAt_def)
  from splitAndScatterRegions_scatter_set [of "[[0x6D]]"
      "staticClient [] (Inr [regionAt 5 [0x61] [0x6D], regionAt 6 [0x6E] [0x7A]]) None"
      "regionAt 1 [0x61] [0x7A]" "(0, [])"
      "[regionAt 5 [0x61] [0x6D], regionAt 6 [0x6E] [0x7A]]"
      "(0, [CallBatchSplitRegions (regionAt 1 [0x61] [0x7A]) [[0x6D]]])"
      "[regionAt 5 [0x61] [0x6D], regionAt 6 [0x6E] [0x7A]]"] s2
  have b: "splitAndScatterRegions
      (staticClient [] (Inr [regionAt 5 [0x61] [0x6D], regionAt 6 [0x6E] [0x7A]]) None)
      (regionAt 1 [0x61] [0x7A]) [[0x6D]] (0, []) =
     Some (Return ([regionAt 5 [0x61] [0x6D], regionAt 6 [0x6E] [0x7A]], None)
       (0, [CallBatchSplitRegions (regionAt 1 [0x61] [0x7A]) [[0x6D]], CallGetRegionByID 5,
            CallScatterRegion (regionAt 5 [0x61] [0x6D]), CallGetRegionByID 6,
            CallScatterRegion (regionAt 6 [0x6E] [0x7A])]))"
    by (auto simp: staticClient_def client_BatchSplitRegions_def regionAt_def)
  from a b show ?thesis by (rule conjI)
qed


lemma splitAndScatterRegions_error:
  "splitAndScatterRegions c regionInfo keys w = Some (Return (regions, Some err) w') \<Longrightarrow>
     keys \<noteq> [] \<and> client_BatchSplitRegions c regionInfo keys w = (Inl err, w')"
  by (auto simp: splitAndScatterRegions_def
      split: if_splits prod.splits sum.splits option.splits outcome.splits)

lemma multierr_Append_left: "errs \<noteq> None \<Longrightarrow> multierr_Append errs res \<noteq> None"
  by (cases errs; cases res) auto

lemma delete_keeps:
  "(k, v) \<in> set al \<Longrightarrow> k' \<noteq> k \<Longrightarrow> (k, v) \<in> set (AList.delete k' al)"
  by (induction al) auto

lemma delete_key_absent: "(k, v) \<notin> set (AList.delete k al)"
  by (induction al) auto

lemma delete_removes_keyed:
  "\<forall>(k, v) \<in> set al. k = GetId (Region v) \<Longrightarrow> r \<notin> snd ` set (AList.delete (GetId (Region r)) al)"
proof
  assume keyed: "\<forall>(k, v) \<in> set al. k = GetId (Region v)"
    and "r \<in> snd ` set (AList.delete (GetId (Region r)) al)"
  then obtain k where k: "(k, r) \<in> set (AList.delete (GetId (Region r)) al)" by auto
  with delete_subset [of "GetId (Region r)" al] have "(k, r) \<in> set al" by blast
  with keyed have "k = GetId (Region r)" by blast
  with k delete_key_absent [of "GetId (Region r)" r al] show False by simp
qed

lemma client_ScatterRegion_result:
  "client_ScatterRegion c region w = (res, w1) \<Longrightarrow> res = fst (ScatterRegion c region (fst w))"
  by (auto simp: client_ScatterRegion_def split: prod.splits)

lemma scatterPass_drops:
  "\<forall>s e. fst (ScatterRegion c r s) = Some e \<longrightarrow> \<not> pdErrorCanRetry c e \<Longrightarrow>
   \<forall>(k, v) \<in> set newRegionSet. k = GetId (Region v) \<Longrightarrow>
   r \<in> snd ` set pending \<or> r \<notin> snd ` set newRegionSet \<Longrightarrow>
   scatterPass c pending errs newRegionSet w = (errs', newRegionSet', w') \<Longrightarrow>
     r \<notin> snd ` set newRegionSet'"
proof (induction pending arbitrary: errs newRegionSet w)
  case Nil
  then show ?case by simp
next
  case (Cons entry pending)
  obtain regionID region where entry: "entry = (regionID, region)" by (cases entry)
  obtain res w1 where sc:
    "client_ScatterRegion c region (waitForSplit c (GetId (Region region)) w) = (res, w1)"
    by (metis surj_pair)
  let ?D = "AList.delete (GetId (Region region)) newRegionSet"
  have keyedD: "\<forall>(k, v) \<in> set ?D. k = GetId (Region v)"
    using Cons.prems(2) delete_subset [of "GetId (Region region)" newRegionSet] by blast
  show ?case
  proof (cases "res = None \<or> \<not> pdErrorCanRetry c (the res)")
    case True
    with Cons.prems(4) entry sc
    have run: "scatterPass c pending (multierr_Append errs res) ?D w1 = (errs', newRegionSet', w')"
      by (auto split: option.splits)
    have "r \<in> snd ` set pending \<or> r \<notin> snd ` set ?D"
    proof (cases "region = r")
      case True
      then show ?thesis using delete_removes_keyed [OF Cons.prems(2), of r] by simp
    next
      case False
      with Cons.prems(3) entry delete_subset [of "GetId (Region region)" newRegionSet]
      show ?thesis by auto
    qed
    from Cons.IH [OF Cons.prems(1) keyedD this run] show ?thesis .
  next
    case False
    then obtain err where res: "res = Some err" and retry: "pdErrorCanRetry c err" by auto
    from client_ScatterRegion_result [OF sc] res
    have "fst (ScatterRegion c region (fst (waitForSplit c (GetId (Region region)) w))) = Some err"
      by simp
    with Cons.prems(1) retry have ne: "region \<noteq> r" by blast
    from Cons.prems(4) entry sc res retry
    have run: "scatterPass c pending (multierr_Append errs res) newRegionSet w1 = (errs', newRegionSet', w')"
      by simp
    from Cons.prems(3) entry ne have "r \<in> snd ` set pending \<or> r \<notin> snd ` set newRegionSet" by auto
    from Cons.IH [OF Cons.prems(1) Cons.prems(2) this run] show ?thesis .
  qed
qed

lemma scatterPass_keeps:
  "\<forall>s. \<exists>e. fst (ScatterRegion c r s) = Some e \<and> pdErrorCanRetry c e \<Longrightarrow>
   \<forall>(k, v) \<in> set pending. v \<noteq> r \<longrightarrow> GetId (Region v) \<noteq> GetId (Region r) \<Longrightarrow>
   (GetId (Region r), r) \<in> set newRegionSet \<Longrightarrow>
   scatterPass c pending errs newRegionSet w = (errs', newRegionSet', w') \<Longrightarrow>
     (GetId (Region r), r) \<in> set newRegionSet'
     \<and> (r \<in> snd ` set pending \<or> errs \<noteq> None \<longrightarrow> errs' \<noteq> None)"
proof (induction pending arbitrary: errs newRegionSet w)
  case Nil
  then show ?case by simp
next
  case (Cons entry pending)
  obtain regionID region where entry: "entry = (regionID, region)" by (cases entry)
  obtain res w1 where sc:
    "client_ScatterRegion c region (waitForSplit c (GetId (Region region)) w) = (res, w1)"
    by (metis surj_pair)
  let ?D = "AList.delete (GetId (Region region)) newRegionSet"
  from Cons.prems(2) have tl: "\<forall>(k, v) \<in> set pending. v \<noteq> r \<longrightarrow> GetId (Region v) \<noteq> GetId (Region r)"
    by simp
  show ?case
  proof (cases "region = r")
    case True
    from Cons.prems(1) obtain e where
      e: "fst (ScatterRegion c r (fst (waitForSplit c (GetId (Region r)) w))) = Some e"
      and retry: "pdErrorCanRetry c e"
      by blast
    from client_ScatterRegion_result [OF sc] True e have res: "res = Some e" by simp
    from Cons.prems(4) entry sc res retry
    have run: "scatterPass c pending (multierr_Append errs (Some e)) newRegionSet w1 = (errs', newRegionSet', w')"
      by simp
    from Cons.IH [OF Cons.prems(1) tl Cons.prems(3) run] multierr_Append_Some [of errs e]
    show ?thesis by simp
  next
    case False
    with Cons.prems(2) entry have ne: "GetId (Region region) \<noteq> GetId (Region r)" by simp
    have inD: "(GetId (Region r), r) \<in> set ?D"
      using delete_keeps [OF Cons.prems(3) ne] .
    have cond: "r \<in> snd ` set (entry # pending) \<or> errs \<noteq> None \<longrightarrow>
                r \<in> snd ` set pending \<or> multierr_Append errs res \<noteq> None"
      using False entry multierr_Append_left [of errs res] by auto
    show ?thesis
    proof (cases "res = None \<or> \<not> pdErrorCanRetry c (the res)")
      case True
      with Cons.prems(4) entry sc
      have run: "scatterPass c pending (multierr_Append errs res) ?D w1 = (errs', newRegionSet', w')"
        by (auto split: option.splits)
      from Cons.IH [OF Cons.prems(1) tl inD run] cond show ?thesis by blast
    next
      case False
      with Cons.prems(4) entry sc
      have run: "scatterPass c pending (multierr_Append errs res) newRegionSet w1 = (errs', newRegionSet', w')"
        by (auto split: option.splits)
      from Cons.IH [OF Cons.prems(1) tl Cons.prems(3) run] cond show ?thesis by blast
    qed
  qed
qed

lemma count_list_distinct_mem: "distinct xs \<Longrightarrow> x \<in> set xs \<Longrightarrow> count_list xs x = 1"
  by (induction xs) (auto simp: count_list_0_iff)

lemma newRegionSet_lookup:
  "\<forall>x \<in> set newRegions. GetId (Region x) = GetId (Region r) \<longrightarrow> x = r \<Longrightarrow>
   r \<in> set newRegions \<or> map_of acc (GetId (Region r)) = Some r \<Longrightarrow>
     map_of (fold (\<lambda>newRegion newRegionSet.
        AList.update (GetId (Region newRegion)) newRegion newRegionSet) newRegions acc)
       (GetId (Region r)) = Some r"
proof (induction newRegions arbitrary: acc)
  case Nil
  then show ?case by simp
next
  case (Cons x newRegions)
  let ?acc = "AList.update (GetId (Region x)) x acc"
  from Cons.prems(1) have u: "\<forall>x \<in> set newRegions. GetId (Region x) = GetId (Region r) \<longrightarrow> x = r"
    by simp
  have "r \<in> set newRegions \<or> map_of ?acc (GetId (Region r)) = Some r"
  proof (cases "x = r")
    case True
    then show ?thesis by (simp add: update_conv')
  next
    case False
    with Cons.prems(1) have "GetId (Region x) \<noteq> GetId (Region r)" by auto
    with Cons.prems(2) False show ?thesis by (auto simp: update_conv')
  qed
  from Cons.IH [OF u this] show ?case by simp
qed

lemma WithRetry_scatter_absent:
  "r \<notin> snd ` set S \<Longrightarrow>
   WithRetry (\<lambda>d st. (fst st, time_Sleep c d (snd st))) (scatterAttempt c) b acc (S, w)
     = Some (Return e (S', w')) \<Longrightarrow>
     scatterCalls r (snd w') = scatterCalls r (snd w)"
proof -
  assume sub: "r \<notin> snd ` set S"
    and wr: "WithRetry (\<lambda>d st. (fst st, time_Sleep c d (snd st))) (scatterAttempt c) b acc (S, w)
     = Some (Return e (S', w'))"
  let ?sleep = "\<lambda>d st. (fst st, time_Sleep c d (snd st))"
  let ?I = "\<lambda>st. r \<notin> snd ` set (fst st) \<and> scatterCalls r (snd (snd st)) = scatterCalls r (snd w)"
  let ?m = "\<lambda>st. 0::nat"
  have step: "\<forall>st r' st'. ?I st \<longrightarrow> scatterAttempt c st = Some (Return r' st') \<longrightarrow>
                ?I st' \<and> ?m st' \<le> ?m st + (1::nat)"
  proof (intro allI impI)
    fix st r' st'
    assume i: "?I st" and a: "scatterAttempt c st = Some (Return r' st')"
    from i have "count_list (map snd (fst st)) r = 0" by (simp add: count_list_0_iff)
    with scatterAttempt_effect [OF a, of r] i
    show "?I st' \<and> ?m st' \<le> ?m st + (1::nat)" by auto
  qed
  have slp: "\<forall>d st. ?I st \<longrightarrow> ?I (?sleep d st) \<and> ?m (?sleep d st) = ?m st"
    by (simp add: time_Sleep_scatterCalls)
  from WithRetry_invariant [of ?I "scatterAttempt c" ?m ?sleep, OF step slp _ wr] sub
  show "scatterCalls r (snd w') = scatterCalls r (snd w)" by simp
qed

lemma WithRetry_all_fail:
  "\<forall>st. I st \<longrightarrow> (\<exists>e st1. f st = Some (Return (Some e) st1) \<and> I st1 \<and> m st1 = m st + (1::nat)) \<Longrightarrow>
   \<forall>d st. I st \<longrightarrow> I (sleep d st) \<and> m (sleep d st) = m st \<Longrightarrow>
   I st \<Longrightarrow> b = ExponentialBackoffer n d0 \<Longrightarrow>
   WithRetry sleep f b acc st = Some (Return r st') \<Longrightarrow> m st' = m st + nat n"
proof (induction sleep f b acc st arbitrary: n d0 rule: WithRetry.induct)
  case (1 sleep f b acc st)
  note step = "1.prems"(1) and slp = "1.prems"(2) and ist = "1.prems"(3) and b = "1.prems"(4)
    and res = "1.prems"(5)
  show ?case
  proof (cases "0 < Attempt b")
    case False
    with res b show ?thesis by (simp add: WithRetry_exhausted)
  next
    case True
    from step ist obtain e st1 where f: "f st = Some (Return (Some e) st1)" and i1: "I st1"
      and m1: "m st1 = m st + 1" by blast
    let ?st2 = "sleep (fst (NextBackoff b e)) st1"
    from slp i1 have i2: "I ?st2" and m2: "m ?st2 = m st1" by blast+
    have eq: "WithRetry sleep f b acc st =
                WithRetry sleep f (snd (NextBackoff b e)) (multierr_Append acc (Some e)) ?st2"
      using True f by (simp add: WithRetry_error)
    have b': "snd (NextBackoff b e) = ExponentialBackoffer (n - 1) (2 * d0)" using b by simp
    from "1.IH" [OF True f refl refl step slp i2 b'] res eq
    have "m st' = m ?st2 + nat (n - 1)" by simp
    with m1 m2 True b show ?thesis by simp
  qed
qed

lemma keyed_unique:
  "\<forall>(k, v) \<in> set S. k = GetId (Region v) \<and> v \<in> A \<Longrightarrow>
   \<forall>x \<in> A. GetId (Region x) = GetId (Region r) \<longrightarrow> x = r \<Longrightarrow>
     \<forall>(k, v) \<in> set S. k = GetId (Region v) \<and> (v \<noteq> r \<longrightarrow> GetId (Region v) \<noteq> GetId (Region r))"
  by fastforce

lemma newRegionSet_invariant:
  assumes mem: "r \<in> set newRegions"
    and uniq: "\<forall>x \<in> set newRegions. GetId (Region x) = GetId (Region r) \<longrightarrow> x = r"
    and S: "S = fold (\<lambda>newRegion newRegionSet.
            AList.update (GetId (Region newRegion)) newRegion newRegionSet) newRegions []"
  shows "(\<forall>(k, v) \<in> set S.
            k = GetId (Region v) \<and> (v \<noteq> r \<longrightarrow> GetId (Region v) \<noteq> GetId (Region r)))
         \<and> distinct (map snd S) \<and> (GetId (Region r), r) \<in> set S"
proof -
  have kv: "\<forall>(k, v) \<in> set S. k = GetId (Region v) \<and> v \<in> set newRegions"
    unfolding S using newRegionSet_fold [of "[]" "set newRegions" newRegions] by simp
  have a: "\<forall>(k, v) \<in> set S.
            k = GetId (Region v) \<and> (v \<noteq> r \<longrightarrow> GetId (Region v) \<noteq> GetId (Region r))"
    using kv uniq by (rule keyed_unique)
  have b: "distinct (map snd S)" unfolding S using newRegionSet_values [of newRegions] by simp
  have "map_of S (GetId (Region r)) = Some r"
    unfolding S using newRegionSet_lookup [OF uniq, of "[]"] mem by simp
  then have c: "(GetId (Region r), r) \<in> set S" by (rule map_of_SomeD)
  from a b c show ?thesis by (intro conjI)
qed

lemma keyed_weaken:
  "\<forall>(k, v) \<in> set S. k = GetId (Region v) \<and> (v \<noteq> r \<longrightarrow> GetId (Region v) \<noteq> GetId (Region r)) \<Longrightarrow>
     (\<forall>(k, v) \<in> set S. k = GetId (Region v))
     \<and> (\<forall>(k, v) \<in> set S. v \<noteq> r \<longrightarrow> GetId (Region v) \<noteq> GetId (Region r))"
  by fastforce

lemma keyed_subset:
  "\<forall>(k, v) \<in> set S. k = GetId (Region v) \<and> (v \<noteq> r \<longrightarrow> GetId (Region v) \<noteq> GetId (Region r)) \<Longrightarrow>
   set S1 \<subseteq> set S \<Longrightarrow>
     \<forall>(k, v) \<in> set S1. k = GetId (Region v) \<and> (v \<noteq> r \<longrightarrow> GetId (Region v) \<noteq> GetId (Region r))"
  by fastforce

lemma pair_in_values: "(k, r) \<in> set S \<Longrightarrow> r \<in> snd ` set S"
  by force

lemma ScatterRegionsWithBackoffer_once:
  assumes res: "ScatterRegionsWithBackoffer c newRegions b w = Some (Return u w')"
    and att: "0 < Attempt b"
    and never: "\<forall>s e. fst (ScatterRegion c r s) = Some e \<longrightarrow> \<not> pdErrorCanRetry c e"
    and mem: "r \<in> set newRegions"
    and uniq: "\<forall>x \<in> set newRegions. GetId (Region x) = GetId (Region r) \<longrightarrow> x = r"
  shows "scatterCalls r (snd w') = scatterCalls r (snd w) + 1"
proof -
  define S where "S = fold (\<lambda>newRegion newRegionSet.
            AList.update (GetId (Region newRegion)) newRegion newRegionSet) newRegions []"
  let ?sleep = "\<lambda>d st. (fst st, time_Sleep c d (snd st))"
  from res obtain err S' where wr:
    "WithRetry ?sleep (scatterAttempt c) b None (S, w) = Some (Return err (S', w'))"
    unfolding S_def
    by (auto simp: ScatterRegionsWithBackoffer_def split: option.splits outcome.splits prod.splits)
  from newRegionSet_invariant [OF mem uniq S_def]
  have inv: "\<forall>(k, v) \<in> set S. k = GetId (Region v) \<and> (v \<noteq> r \<longrightarrow> GetId (Region v) \<noteq> GetId (Region r))"
    and d: "distinct (map snd S)" and inS: "(GetId (Region r), r) \<in> set S"
    by simp_all
  from keyed_weaken [OF inv] have keyed: "\<forall>(k, v) \<in> set S. k = GetId (Region v)" by simp
  from inS have rS: "r \<in> snd ` set S" by (rule pair_in_values)
  obtain errs S1 w1 where p: "scatterPass c S None S w = (errs, S1, w1)"
    by (metis surj_pair)
  then have a: "scatterAttempt c (S, w) = Some (Return errs (S1, w1))"
    by (simp add: scatterAttempt_def)
  from scatterPass_effect [OF p, of r] count_list_distinct_mem [OF d] rS
  have c1: "scatterCalls r (snd w1) = scatterCalls r (snd w) + 1" by simp
  from rS have "r \<in> snd ` set S \<or> r \<notin> snd ` set S" by simp
  from scatterPass_drops [OF never keyed this p] have gone: "r \<notin> snd ` set S1" .
  show ?thesis
  proof (cases errs)
    case None
    with wr a att have "w' = w1" by (simp add: WithRetry_success)
    with c1 show ?thesis by simp
  next
    case (Some e)
    with wr a att have
      "WithRetry ?sleep (scatterAttempt c) (snd (NextBackoff b e)) (multierr_Append None (Some e))
         (S1, time_Sleep c (fst (NextBackoff b e)) w1) = Some (Return err (S', w'))"
      by (simp add: WithRetry_error)
    from WithRetry_scatter_absent [OF gone this] c1 show ?thesis
      by (simp add: time_Sleep_scatterCalls)
  qed
qed

lemma ScatterRegionsWithBackoffer_every_pass:
  fixes c :: "'s collaborators"
  assumes res: "ScatterRegionsWithBackoffer c newRegions (ExponentialBackoffer n d0) w = Some (Return u w')"
    and always: "\<forall>s. \<exists>e. fst (ScatterRegion c r s) = Some e \<and> pdErrorCanRetry c e"
    and mem: "r \<in> set newRegions"
    and uniq: "\<forall>x \<in> set newRegions. GetId (Region x) = GetId (Region r) \<longrightarrow> x = r"
  shows "scatterCalls r (snd w') = scatterCalls r (snd w) + nat n"
proof -
  define S where "S = fold (\<lambda>newRegion newRegionSet.
            AList.update (GetId (Region newRegion)) newRegion newRegionSet) newRegions []"
  let ?sleep = "\<lambda>d st. (fst st, time_Sleep c d (snd st))"
  from res obtain err S' where wr:
    "WithRetry ?sleep (scatterAttempt c) (ExponentialBackoffer n d0) None (S, w) = Some (Return err (S', w'))"
    unfolding S_def
    by (auto simp: ScatterRegionsWithBackoffer_def split: option.splits outcome.splits prod.splits)
  let ?I = "\<lambda>st. (\<forall>(k, v) \<in> set (fst st). k = GetId (Region v)
                       \<and> (v \<noteq> r \<longrightarrow> GetId (Region v) \<noteq> GetId (Region r)))
                \<and> distinct (map snd (fst st)) \<and> (GetId (Region r), r) \<in> set (fst st)"
  let ?m = "\<lambda>st. scatterCalls r (snd (snd st))"
  have i0: "?I (S, w)" using newRegionSet_invariant [OF mem uniq S_def] by simp
  have step: "\<forall>st. ?I st \<longrightarrow> (\<exists>e st1. scatterAttempt c st = Some (Return (Some e) st1) \<and> ?I st1
                \<and> ?m st1 = ?m st + (1::nat))"
  proof (intro allI impI)
    fix st :: "(nat \<times> RegionInfo) list \<times> 's world"
    assume i: "?I st"
    obtain errs S1 w1 where p: "scatterPass c (fst st) None (fst st) (snd st) = (errs, S1, w1)"
      by (metis surj_pair)
    then have a: "scatterAttempt c st = Some (Return errs (S1, w1))"
      by (simp add: scatterAttempt_def)
    from i have inv: "\<forall>(k, v) \<in> set (fst st). k = GetId (Region v)
                       \<and> (v \<noteq> r \<longrightarrow> GetId (Region v) \<noteq> GetId (Region r))" by (rule conjunct1)
    from keyed_weaken [OF inv]
    have inj: "\<forall>(k, v) \<in> set (fst st). v \<noteq> r \<longrightarrow> GetId (Region v) \<noteq> GetId (Region r)" by simp
    from i have d: "distinct (map snd (fst st))" and inS: "(GetId (Region r), r) \<in> set (fst st)"
      by simp_all
    from inS have rS: "r \<in> snd ` set (fst st)" by (rule pair_in_values)
    from scatterPass_keeps [OF always inj inS p] rS
    have kept: "(GetId (Region r), r) \<in> set S1" and e: "errs \<noteq> None" by simp_all
    from scatterPass_effect [OF p, of r] count_list_distinct_mem [OF d] rS d
    have c1: "scatterCalls r (snd w1) = scatterCalls r (snd (snd st)) + 1"
      and sub: "set S1 \<subseteq> set (fst st)" and d1: "distinct (map snd S1)" by simp_all
    from keyed_subset [OF inv sub]
    have inv1: "\<forall>(k, v) \<in> set S1. k = GetId (Region v)
                       \<and> (v \<noteq> r \<longrightarrow> GetId (Region v) \<noteq> GetId (Region r))" .
    from e obtain e1 where e1: "errs = Some e1" by (cases errs) simp_all
    from inv1 kept d1 have i1: "?I (S1, w1)" by simp
    from a e1 have a1: "scatterAttempt c st = Some (Return (Some e1) (S1, w1))" by simp
    from c1 have m1: "?m (S1, w1) = ?m st + (1::nat)" by simp
    from a1 i1 m1
    show "\<exists>e st1. scatterAttempt c st = Some (Return (Some e) st1) \<and> ?I st1 \<and> ?m st1 = ?m st + (1::nat)"
      by blast
  qed
  have slp: "\<forall>d st. ?I st \<longrightarrow> ?I (?sleep d st) \<and> ?m (?sleep d st) = ?m st"
    by (simp add: time_Sleep_scatterCalls)
  from WithRetry_all_fail [of ?I "scatterAttempt c" ?m ?sleep, OF step slp i0 refl wr]
  show ?thesis by simp
qed


lemma regionMap_lookup:
  "(\<exists>x \<in> set regions. GetId (Region x) = k) \<or> map_of acc k \<noteq> None \<Longrightarrow>
     map_of (fold (\<lambda>region regionMap. AList.update (GetId (Region region)) region regionMap)
               regions acc) k \<noteq> None"
proof (induction regions arbitrary: acc)
  case Nil
  then show ?case by simp
next
  case (Cons x regions)
  let ?acc = "AList.update (GetId (Region x)) x acc"
  from Cons.prems have "(\<exists>x \<in> set regions. GetId (Region x) = k) \<or> map_of ?acc k \<noteq> None"
    by (auto simp: update_conv')
  from Cons.IH [OF this] show ?case by simp
qed

lemma getSplitKeys_ids:
  "(regionID, keys) \<in> set (getSplitKeys enc rewriteRules ranges regions) \<Longrightarrow>
     \<exists>region \<in> set regions. GetId (Region region) = regionID"
proof -
  assume a: "(regionID, keys) \<in> set (getSplitKeys enc rewriteRules ranges regions)"
  have "distinct (map fst (getSplitKeys enc rewriteRules ranges regions))"
    unfolding getSplitKeys_def by (rule getSplitKeys_keys_distinct) simp
  with a have "map_of (getSplitKeys enc rewriteRules ranges regions) regionID = Some keys"
    by simp
  with getSplitKeys_lookup [of enc rewriteRules ranges regions regionID]
  have "plannedKeys enc regions ranges regionID \<noteq> []" by (auto split: if_splits)
  then obtain key where "key \<in> set (plannedKeys enc regions ranges regionID)"
    by (cases "plannedKeys enc regions ranges regionID") auto
  then have "assignedTo enc regions regionID key" by (simp add: plannedKeys_def)
  then obtain region where n: "NeedSplit enc key regions = Some region"
    and i: "GetId (Region region) = regionID"
    by (auto simp: assignedTo_def split: option.splits)
  from NeedSplit_sound [OF n] i show ?thesis by blast
qed

lemma splitAndScatterRegions_split_ok:
  assumes ok: "\<forall>region keys s. \<exists>newRegions s'. BatchSplitRegions c region keys s = (Inr newRegions, s')
                  \<and> newRegions \<noteq> []"
  shows "\<exists>newRegions w'. splitAndScatterRegions c region keys w = Some (Return (newRegions, None) w')"
proof (cases "keys = []")
  case True
  then show ?thesis by (simp add: splitAndScatterRegions_def)
next
  case False
  from ok obtain newRegions s' where
    "BatchSplitRegions c region keys (fst w) = (Inr newRegions, s')" and ne: "newRegions \<noteq> []"
    by blast
  then have "client_BatchSplitRegions c region keys w =
               (Inr newRegions, (s', snd w @ [CallBatchSplitRegions region keys]))"
    by (simp add: client_BatchSplitRegions_def)
  from splitAndScatterRegions_success [OF False this ne refl] show ?thesis by blast
qed

lemma splitRegions_all_done:
  "\<forall>region keys s. \<exists>newRegions s'. BatchSplitRegions c region keys s = (Inr newRegions, s')
                  \<and> newRegions \<noteq> [] \<Longrightarrow>
   \<forall>(regionID, keys) \<in> set splitKeyMap. map_of regionMap regionID \<noteq> None \<Longrightarrow>
     \<exists>scatterRegions' w'.
        splitRegions c regionMap splitKeyMap interval scatterRegions None w =
          Some (Return (AllRegionsDone, interval, scatterRegions', None) w')"
proof (induction splitKeyMap arbitrary: scatterRegions w)
  case Nil
  show ?case by simp
next
  case (Cons entry splitKeyMap)
  obtain regionID keys where entry: "entry = (regionID, keys)" by (cases entry)
  from Cons.prems(2) entry obtain region where m: "map_of regionMap regionID = Some region"
    by auto
  from splitAndScatterRegions_split_ok [OF Cons.prems(1), of region keys w]
  obtain newRegions w1 where
    s: "splitAndScatterRegions c region keys w = Some (Return (newRegions, None) w1)"
    by blast
  from Cons.prems(2) have tl: "\<forall>(regionID, keys) \<in> set splitKeyMap. map_of regionMap regionID \<noteq> None"
    by simp
  from Cons.IH [OF Cons.prems(1) tl, of "scatterRegions @ newRegions" "onSplit keys w1"]
  obtain scatterRegions' w' where
    "splitRegions c regionMap splitKeyMap interval (scatterRegions @ newRegions) None (onSplit keys w1) =
          Some (Return (AllRegionsDone, interval, scatterRegions', None) w')"
    by blast
  with entry m s show ?case by simp
qed

lemma Split_succeeds:
  assumes ranges: "ranges \<noteq> []" and sorted: "SortRanges c ranges rewriteRules = Inr sortedRanges"
    and ne: "sortedRanges \<noteq> []"
    and scan: "PaginateScanRegion c (EncodeBytes c (StartKey (hd sortedRanges)))
                 (EncodeBytes c (EndKey (last sortedRanges))) ScanRegionPaginationLimit w =
               Some (Return (regions, None) w1)"
    and ok: "\<forall>region keys s. \<exists>newRegions s'. BatchSplitRegions c region keys s = (Inr newRegions, s')
                  \<and> newRegions \<noteq> []"
  shows "\<exists>w'. Split c ranges rewriteRules w = Some (Return None w')"
proof -
  define regionMap where "regionMap =
     fold (\<lambda>region regionMap. AList.update (GetId (Region region)) region regionMap) regions []"
  define splitKeyMap where "splitKeyMap = getSplitKeys (EncodeBytes c) rewriteRules sortedRanges regions"
  have "\<And>regionID keys. (regionID, keys) \<in> set splitKeyMap \<Longrightarrow> map_of regionMap regionID \<noteq> None"
  proof -
    fix regionID keys
    assume m: "(regionID, keys) \<in> set splitKeyMap"
    from m have "\<exists>region \<in> set regions. GetId (Region region) = regionID"
      unfolding splitKeyMap_def by (rule getSplitKeys_ids)
    then have "(\<exists>x \<in> set regions. GetId (Region x) = regionID) \<or> map_of [] regionID \<noteq> None"
      by simp
    from regionMap_lookup [OF this] show "map_of regionMap regionID \<noteq> None"
      by (simp add: regionMap_def)
  qed
  then have ids: "\<forall>(regionID, keys) \<in> set splitKeyMap. map_of regionMap regionID \<noteq> None"
    by fast
  from splitRegions_all_done [OF ok ids, of SplitRetryInterval "[]" w1]
  obtain scatterRegions' w2 where
    d: "splitRegions c regionMap splitKeyMap SplitRetryInterval [] None w1 =
          Some (Return (AllRegionsDone, SplitRetryInterval, scatterRegions', None) w2)"
    by blast
  have "SplitRegions_attempts c rewriteRules sortedRanges
          (EncodeBytes c (StartKey (hd sortedRanges))) (EncodeBytes c (EndKey (last sortedRanges)))
          (Suc 31) SplitRetryInterval [] None w = Some (Return (Inr (scatterRegions', None)) w2)"
    using scan d unfolding regionMap_def splitKeyMap_def by (simp del: Suc_numeral)
  moreover have "SplitRetryTimes = Suc 31" by (simp add: SplitRetryTimes_def)
  ultimately have "SplitRegions_attempts c rewriteRules sortedRanges
          (EncodeBytes c (StartKey (hd sortedRanges))) (EncodeBytes c (EndKey (last sortedRanges)))
          SplitRetryTimes SplitRetryInterval [] None w = Some (Return (Inr (scatterRegions', None)) w2)"
    by simp
  with ranges sorted ne show ?thesis by (simp add: Split_def)
qed

text \<open>
  C9. Scatter failures are contained. ScatterRegions always returns, and it has no error
  to return. It calls ScatterRegion at most 7 times for any region, and never for a region
  that was not passed to it. Within a pass, a region whose scatter succeeds is deleted from
  the pending set; so is a region whose scatter fails with an error that cannot be retried
  (the error only joins the errors of the pass); a region whose error can be retried stays
  pending. A pass only shrinks the pending set and calls ScatterRegion once for each region
  pending at its start. An error returned by splitAndScatterRegions is the error of the
  split RPC; after a successful split it returns no error, whatever the scatter calls did.
  Over the whole retry loop, for a region that is the only one of the list with its id: if
  its scatter never fails with an error that can be retried, it is scattered exactly once
  (no later pass takes it up again); if its scatter always fails with an error that can be
  retried, it is scattered in each of the 7 passes, exactly 7 times. Split returns nil
  when the scan succeeds and every batch split succeeds, whatever ScatterRegion returns.
\<close>

theorem scatter_failures_contained:
  "(\<exists>w'. ScatterRegions c newRegions w = Some (Return () w')
         \<and> (\<forall>r. scatterCalls r (snd w') \<le> scatterCalls r (snd w) + 7)
         \<and> (\<forall>r. r \<notin> set newRegions \<longrightarrow> scatterCalls r (snd w') = scatterCalls r (snd w)))
   \<and> (client_ScatterRegion c region (waitForSplit c (GetId (Region region)) w) = (None, w1) \<longrightarrow>
        scatterPass c ((regionID, region) # pending) errs newRegionSet w =
          scatterPass c pending errs (AList.delete (GetId (Region region)) newRegionSet) w1)
   \<and> (client_ScatterRegion c region (waitForSplit c (GetId (Region region)) w) = (Some err, w1)
        \<and> \<not> pdErrorCanRetry c err \<longrightarrow>
        scatterPass c ((regionID, region) # pending) errs newRegionSet w =
          scatterPass c pending (multierr_Append errs (Some err))
            (AList.delete (GetId (Region region)) newRegionSet) w1)
   \<and> (client_ScatterRegion c region (waitForSplit c (GetId (Region region)) w) = (Some err, w1)
        \<and> pdErrorCanRetry c err \<longrightarrow>
        scatterPass c ((regionID, region) # pending) errs newRegionSet w =
          scatterPass c pending (multierr_Append errs (Some err)) newRegionSet w1)
   \<and> (scatterPass c pending errs newRegionSet w = (errs', newRegionSet', w2) \<longrightarrow>
        set newRegionSet' \<subseteq> set newRegionSet
        \<and> (\<forall>r. scatterCalls r (snd w2) = scatterCalls r (snd w) + count_list (map snd pending) r))
   \<and> (splitAndScatterRegions c regionInfo keys w = Some (Return (regions, Some err) w3) \<longrightarrow>
        client_BatchSplitRegions c regionInfo keys w = (Inl err, w3))
   \<and> (keys \<noteq> [] \<and> client_BatchSplitRegions c regionInfo keys w = (Inr newRegions, w1)
        \<and> newRegions \<noteq> [] \<longrightarrow>
        (\<exists>regions w4. splitAndScatterRegions c regionInfo keys w = Some (Return (regions, None) w4)))
   \<and> (target \<in> set newRegions
        \<and> (\<forall>x \<in> set newRegions. GetId (Region x) = GetId (Region target) \<longrightarrow> x = target)
        \<and> (\<forall>s e. fst (ScatterRegion c target s) = Some e \<longrightarrow> \<not> pdErrorCanRetry c e) \<longrightarrow>
        (\<exists>w'. ScatterRegions c newRegions w = Some (Return () w')
               \<and> scatterCalls target (snd w') = scatterCalls target (snd w) + 1))
   \<and> (target \<in> set newRegions
        \<and> (\<forall>x \<in> set newRegions. GetId (Region x) = GetId (Region target) \<longrightarrow> x = target)
        \<and> (\<forall>s. \<exists>e. fst (ScatterRegion c target s) = Some e \<and> pdErrorCanRetry c e) \<longrightarrow>
        (\<exists>w'. ScatterRegions c newRegions w = Some (Return () w')
               \<and> scatterCalls target (snd w') = scatterCalls target (snd w) + 7))
   \<and> (ranges \<noteq> [] \<and> SortRanges c ranges rewriteRules = Inr sortedRanges \<and> sortedRanges \<noteq> []
        \<and> PaginateScanRegion c (EncodeBytes c (StartKey (hd sortedRanges)))
             (EncodeBytes c (EndKey (last sortedRanges))) ScanRegionPaginationLimit w =
           Some (Return (scanned, None) w1)
        \<and> (\<forall>region keys s. \<exists>newRegions s'.
              BatchSplitRegions c region keys s = (Inr newRegions, s') \<and> newRegions \<noteq> []) \<longrightarrow>
        (\<exists>w'. Split c ranges rewriteRules w = Some (Return None w')))"
proof -
  have p1: "\<exists>w'. ScatterRegions c newRegions w = Some (Return () w')
         \<and> (\<forall>r. scatterCalls r (snd w') \<le> scatterCalls r (snd w) + 7)
         \<and> (\<forall>r. r \<notin> set newRegions \<longrightarrow> scatterCalls r (snd w') = scatterCalls r (snd w))"
  proof -
    from ScatterRegions_returns obtain w' where r: "ScatterRegions c newRegions w = Some (Return () w')"
      by blast
    then have r': "ScatterRegionsWithBackoffer c newRegions (ExponentialBackoffer 7 (100 * Millisecond)) w
                = Some (Return () w')"
      by (simp add: ScatterRegions_def)
    have "\<forall>r. scatterCalls r (snd w') \<le> scatterCalls r (snd w) + 7"
      using ScatterRegionsWithBackoffer_calls(1) [OF r'] by simp
    moreover have "\<forall>r. r \<notin> set newRegions \<longrightarrow> scatterCalls r (snd w') = scatterCalls r (snd w)"
      using ScatterRegionsWithBackoffer_calls(2) [OF r'] by simp
    ultimately show ?thesis using r by blast
  qed
  have p2: "client_ScatterRegion c region (waitForSplit c (GetId (Region region)) w) = (None, w1) \<longrightarrow>
        scatterPass c ((regionID, region) # pending) errs newRegionSet w =
          scatterPass c pending errs (AList.delete (GetId (Region region)) newRegionSet) w1"
    by (cases errs) simp_all
  have p3: "client_ScatterRegion c region (waitForSplit c (GetId (Region region)) w) = (Some err, w1)
        \<and> \<not> pdErrorCanRetry c err \<longrightarrow>
        scatterPass c ((regionID, region) # pending) errs newRegionSet w =
          scatterPass c pending (multierr_Append errs (Some err))
            (AList.delete (GetId (Region region)) newRegionSet) w1"
    by simp
  have p4: "client_ScatterRegion c region (waitForSplit c (GetId (Region region)) w) = (Some err, w1)
        \<and> pdErrorCanRetry c err \<longrightarrow>
        scatterPass c ((regionID, region) # pending) errs newRegionSet w =
          scatterPass c pending (multierr_Append errs (Some err)) newRegionSet w1"
    by simp
  have p5: "scatterPass c pending errs newRegionSet w = (errs', newRegionSet', w2) \<longrightarrow>
        set newRegionSet' \<subseteq> set newRegionSet
        \<and> (\<forall>r. scatterCalls r (snd w2) = scatterCalls r (snd w) + count_list (map snd pending) r)"
    using scatterPass_effect [of c pending errs newRegionSet w errs' newRegionSet' w2] by blast
  have p6: "splitAndScatterRegions c regionInfo keys w = Some (Return (regions, Some err) w3) \<longrightarrow>
        client_BatchSplitRegions c regionInfo keys w = (Inl err, w3)"
    using splitAndScatterRegions_error by blast
  have p7: "keys \<noteq> [] \<and> client_BatchSplitRegions c regionInfo keys w = (Inr newRegions, w1)
        \<and> newRegions \<noteq> [] \<longrightarrow>
        (\<exists>regions w4. splitAndScatterRegions c regionInfo keys w = Some (Return (regions, None) w4))"
    using splitAndScatterRegions_success [of keys c regionInfo w newRegions w1] by blast
  have p8: "target \<in> set newRegions
        \<and> (\<forall>x \<in> set newRegions. GetId (Region x) = GetId (Region target) \<longrightarrow> x = target)
        \<and> (\<forall>s e. fst (ScatterRegion c target s) = Some e \<longrightarrow> \<not> pdErrorCanRetry c e) \<longrightarrow>
        (\<exists>w'. ScatterRegions c newRegions w = Some (Return () w')
               \<and> scatterCalls target (snd w') = scatterCalls target (snd w) + 1)"
  proof
    assume a: "target \<in> set newRegions
        \<and> (\<forall>x \<in> set newRegions. GetId (Region x) = GetId (Region target) \<longrightarrow> x = target)
        \<and> (\<forall>s e. fst (ScatterRegion c target s) = Some e \<longrightarrow> \<not> pdErrorCanRetry c e)"
    from ScatterRegions_returns obtain w' where r: "ScatterRegions c newRegions w = Some (Return () w')"
      by blast
    then have r': "ScatterRegionsWithBackoffer c newRegions (ExponentialBackoffer 7 (100 * Millisecond)) w
                = Some (Return () w')"
      by (simp add: ScatterRegions_def)
    have "0 < Attempt (ExponentialBackoffer 7 (100 * Millisecond))" by simp
    from ScatterRegionsWithBackoffer_once [OF r' this, of target] a
    have "scatterCalls target (snd w') = scatterCalls target (snd w) + 1" by blast
    with r show "\<exists>w'. ScatterRegions c newRegions w = Some (Return () w')
               \<and> scatterCalls target (snd w') = scatterCalls target (snd w) + 1"
      by blast
  qed
  have p9: "target \<in> set newRegions
        \<and> (\<forall>x \<in> set newRegions. GetId (Region x) = GetId (Region target) \<longrightarrow> x = target)
        \<and> (\<forall>s. \<exists>e. fst (ScatterRegion c target s) = Some e \<and> pdErrorCanRetry c e) \<longrightarrow>
        (\<exists>w'. ScatterRegions c newRegions w = Some (Return () w')
               \<and> scatterCalls target (snd w') = scatterCalls target (snd w) + 7)"
  proof
    assume a: "target \<in> set newRegions
        \<and> (\<forall>x \<in> set newRegions. GetId (Region x) = GetId (Region target) \<longrightarrow> x = target)
        \<and> (\<forall>s. \<exists>e. fst (ScatterRegion c target s) = Some e \<and> pdErrorCanRetry c e)"
    from ScatterRegions_returns obtain w' where r: "ScatterRegions c newRegions w = Some (Return () w')"
      by blast
    then have r': "ScatterRegionsWithBackoffer c newRegions (ExponentialBackoffer 7 (100 * Millisecond)) w
                = Some (Return () w')"
      by (simp add: ScatterRegions_def)
    from ScatterRegionsWithBackoffer_every_pass [OF r', of target] a
    have "scatterCalls target (snd w') = scatterCalls target (snd w) + nat 7" by blast
    with r show "\<exists>w'. ScatterRegions c newRegions w = Some (Return () w')
               \<and> scatterCalls target (snd w') = scatterCalls target (snd w) + 7"
      by auto
  qed
  have p10: "ranges \<noteq> [] \<and> SortRanges c ranges rewriteRules = Inr sortedRanges \<and> sortedRanges \<noteq> []
        \<and> PaginateScanRegion c (EncodeBytes c (StartKey (hd sortedRanges)))
             (EncodeBytes c (EndKey (last sortedRanges))) ScanRegionPaginationLimit w =
           Some (Return (scanned, None) w1)
        \<and> (\<forall>region keys s. \<exists>newRegions s'.
              BatchSplitRegions c region keys s = (Inr newRegions, s') \<and> newRegions \<noteq> []) \<longrightarrow>
        (\<exists>w'. Split c ranges rewriteRules w = Some (Return None w'))"
    using Split_succeeds [of ranges c rewriteRules sortedRanges w scanned w1] by blast
  from p1 p2 p3 p4 p5 p6 p7 p8 p9 p10 show ?thesis by (intro conjI)
qed

theorem scatter_failures_contained_witness:
  "(\<exists>w'. ScatterRegions (staticClient [] (Inr []) (Some (Err ErrOther ''region 5 has no leader'')))
            [regionAt 5 [] []] (0, []) = Some (Return () w')
         \<and> scatterCalls (regionAt 5 [] []) (snd w') = 7)
   \<and> (\<exists>w'. ScatterRegions (staticClient [] (Inr []) (Some (Err ErrOther ''region 5 is hot'')))
            [regionAt 5 [] []] (0, []) = Some (Return () w')
         \<and> scatterCalls (regionAt 5 [] []) (snd w') = 1)
   \<and> scatterPass (staticClient [] (Inr []) (Some (Err ErrOther ''region 5 is hot'')))
        [(5, regionAt 5 [] [])] None [(5, regionAt 5 [] [])] (0, []) =
      (Some (Err ErrOther ''region 5 is hot''), [],
       (0, [CallGetRegionByID 5, CallScatterRegion (regionAt 5 [] [])]))
   \<and> (\<exists>w'. Split (staticClient [regionAt 1 [] []]
        (Inr [regionAt 5 [] (memcomparable [2]), regionAt 6 (memcomparable [2]) []])
        (Some (Err ErrOther ''region 5 has no leader'')))
              [\<lparr>StartKey = [1], EndKey = [2]\<rparr>] [] (0, []) = Some (Return None w'))"
proof -
  have retry: "pdErrorCanRetry (staticClient [] (Inr []) (Some (Err ErrOther ''region 5 has no leader'')))
                 (Err ErrOther ''region 5 has no leader'')"
    by code_simp
  have alw: "\<forall>s. \<exists>e. fst (ScatterRegion (staticClient [] (Inr []) (Some (Err ErrOther ''region 5 has no leader''))) (regionAt 5 [] []) s) = Some e
                \<and> pdErrorCanRetry (staticClient [] (Inr []) (Some (Err ErrOther ''region 5 has no leader''))) e"
  proof
    fix s
    have "fst (ScatterRegion (staticClient [] (Inr []) (Some (Err ErrOther ''region 5 has no leader''))) (regionAt 5 [] []) s) = Some (Err ErrOther ''region 5 has no leader'')"
      by (simp add: staticClient_def)
    with retry show "\<exists>e. fst (ScatterRegion (staticClient [] (Inr []) (Some (Err ErrOther ''region 5 has no leader''))) (regionAt 5 [] []) s) = Some e
                \<and> pdErrorCanRetry (staticClient [] (Inr []) (Some (Err ErrOther ''region 5 has no leader''))) e"
      by blast
  qed
  have a: "\<exists>w'. ScatterRegions (staticClient [] (Inr []) (Some (Err ErrOther ''region 5 has no leader'')))
            [regionAt 5 [] []] (0, []) = Some (Return () w')
         \<and> scatterCalls (regionAt 5 [] []) (snd w') = 7"
    using scatter_failures_contained [where c = "staticClient [] (Inr []) (Some (Err ErrOther ''region 5 has no leader''))"
      and newRegions = "[regionAt 5 [] []]" and w = "(0, [])" and target = "regionAt 5 [] []"] alw
    by (simp add: scatterCalls_def)
  have nr: "\<not> pdErrorCanRetry (staticClient [] (Inr []) (Some (Err ErrOther ''region 5 is hot'')))
              (Err ErrOther ''region 5 is hot'')"
    by code_simp
  have nev: "\<forall>s e. fst (ScatterRegion (staticClient [] (Inr []) (Some (Err ErrOther ''region 5 is hot''))) (regionAt 5 [] []) s) = Some e
                \<longrightarrow> \<not> pdErrorCanRetry (staticClient [] (Inr []) (Some (Err ErrOther ''region 5 is hot''))) e"
  proof (intro allI impI)
    fix s e
    assume "fst (ScatterRegion (staticClient [] (Inr []) (Some (Err ErrOther ''region 5 is hot''))) (regionAt 5 [] []) s) = Some e"
    then have "e = Err ErrOther ''region 5 is hot''" by (simp add: staticClient_def)
    with nr show "\<not> pdErrorCanRetry (staticClient [] (Inr []) (Some (Err ErrOther ''region 5 is hot''))) e" by simp
  qed
  have d: "\<exists>w'. ScatterRegions (staticClient [] (Inr []) (Some (Err ErrOther ''region 5 is hot'')))
            [regionAt 5 [] []] (0, []) = Some (Return () w')
         \<and> scatterCalls (regionAt 5 [] []) (snd w') = 1"
    using scatter_failures_contained [where c = "staticClient [] (Inr []) (Some (Err ErrOther ''region 5 is hot''))"
      and newRegions = "[regionAt 5 [] []]" and w = "(0, [])" and target = "regionAt 5 [] []"] nev
    by (simp add: scatterCalls_def)
  have sc: "client_ScatterRegion (staticClient [] (Inr []) (Some (Err ErrOther ''region 5 is hot'')))
              (regionAt 5 [] [])
              (waitForSplit (staticClient [] (Inr []) (Some (Err ErrOther ''region 5 is hot'')))
                 (GetId (Region (regionAt 5 [] []))) (0, [])) =
            (Some (Err ErrOther ''region 5 is hot''),
             (0, [CallGetRegionByID 5, CallScatterRegion (regionAt 5 [] [])]))"
    by code_simp
  have b: "scatterPass (staticClient [] (Inr []) (Some (Err ErrOther ''region 5 is hot'')))
        [(5, regionAt 5 [] [])] None [(5, regionAt 5 [] [])] (0, []) =
      (Some (Err ErrOther ''region 5 is hot''), [],
       (0, [CallGetRegionByID 5, CallScatterRegion (regionAt 5 [] [])]))"
    using scatter_failures_contained [where c = "staticClient [] (Inr []) (Some (Err ErrOther ''region 5 is hot''))"
      and region = "regionAt 5 [] []" and w = "(0, [])" and regionID = 5 and pending = "[]"
      and errs = None and newRegionSet = "[(5, regionAt 5 [] [])]"
      and err = "Err ErrOther ''region 5 is hot''"
      and ?w1.0 = "(0, [CallGetRegionByID 5, CallScatterRegion (regionAt 5 [] [])])"] sc nr
    by (simp add: regionAt_def)
  have scan: "PaginateScanRegion (staticClient [regionAt 1 [] []]
        (Inr [regionAt 5 [] (memcomparable [2]), regionAt 6 (memcomparable [2]) []])
        (Some (Err ErrOther ''region 5 has no leader'')))
      (EncodeBytes (staticClient [regionAt 1 [] []]
        (Inr [regionAt 5 [] (memcomparable [2]), regionAt 6 (memcomparable [2]) []])
        (Some (Err ErrOther ''region 5 has no leader''))) (StartKey (hd [\<lparr>StartKey = [1], EndKey = [2]\<rparr>])))
      (EncodeBytes (staticClient [regionAt 1 [] []]
        (Inr [regionAt 5 [] (memcomparable [2]), regionAt 6 (memcomparable [2]) []])
        (Some (Err ErrOther ''region 5 has no leader''))) (EndKey (last [\<lparr>StartKey = [1], EndKey = [2]\<rparr>])))
      ScanRegionPaginationLimit (0, []) =
     Some (Return ([regionAt 1 [] []], None)
       (0, [CallScanRegions (memcomparable [1]) (memcomparable [2]) 128]))"
    by code_simp
  have srt: "SortRanges (staticClient [regionAt 1 [] []]
        (Inr [regionAt 5 [] (memcomparable [2]), regionAt 6 (memcomparable [2]) []])
        (Some (Err ErrOther ''region 5 has no leader''))) [\<lparr>StartKey = [1], EndKey = [2]\<rparr>] [] = Inr [\<lparr>StartKey = [1], EndKey = [2]\<rparr>]"
    by code_simp
  have ok: "\<forall>region keys s. \<exists>newRegions s'.
              BatchSplitRegions (staticClient [regionAt 1 [] []]
        (Inr [regionAt 5 [] (memcomparable [2]), regionAt 6 (memcomparable [2]) []])
        (Some (Err ErrOther ''region 5 has no leader''))) region keys s = (Inr newRegions, s') \<and> newRegions \<noteq> []"
    by (simp add: staticClient_def)
  have g: "\<exists>w'. Split (staticClient [regionAt 1 [] []]
        (Inr [regionAt 5 [] (memcomparable [2]), regionAt 6 (memcomparable [2]) []])
        (Some (Err ErrOther ''region 5 has no leader'')))
              [\<lparr>StartKey = [1], EndKey = [2]\<rparr>] [] (0, []) = Some (Return None w')"
    using scatter_failures_contained [where c = "staticClient [regionAt 1 [] []]
        (Inr [regionAt 5 [] (memcomparable [2]), regionAt 6 (memcomparable [2]) []])
        (Some (Err ErrOther ''region 5 has no leader''))"
      and ranges = "[\<lparr>StartKey = [1], EndKey = [2]\<rparr>]" and rewriteRules = "[]" and sortedRanges = "[\<lparr>StartKey = [1], EndKey = [2]\<rparr>]"
      and w = "(0, [])" and scanned = "[regionAt 1 [] []]"
      and ?w1.0 = "(0, [CallScanRegions (memcomparable [1]) (memcomparable [2]) 128])"] scan srt ok
    by simp
  from a d b g show ?thesis by (intro conjI)
qed

section \<open>Properties of the split executor: failing scans and splits\<close>

lemma WithRetry_scan_class:
  "b = ScanRegionBackoffer n \<Longrightarrow>
   (acc = None \<and> 2 \<le> n) \<or> (\<exists>e0. acc = Some e0 \<and> (Equal ErrPDBatchScanRegion e0 \<longrightarrow> 1 \<le> n)) \<Longrightarrow>
   WithRetry sleep f b acc st = Some (Return (Some e) st') \<Longrightarrow>
     \<not> Equal ErrPDBatchScanRegion e"
proof (induction sleep f b acc st arbitrary: n rule: WithRetry.induct)
  case (1 sleep f b acc st)
  note b = "1.prems"(1) and inv = "1.prems"(2) and res = "1.prems"(3)
  show ?case
  proof (cases "0 < Attempt b")
    case False
    with res have "acc = Some e" by (simp add: WithRetry_exhausted)
    with inv False b show ?thesis by auto
  next
    case True
    show ?thesis
    proof (cases "f st")
      case None
      with True res show ?thesis by (simp add: WithRetry.simps)
    next
      case (Some out)
      show ?thesis
      proof (cases out)
        case Panic
        with Some True res show ?thesis by (simp add: WithRetry.simps)
      next
        case (Return r1 st1)
        show ?thesis
        proof (cases r1)
          case None
          with Some Return True res show ?thesis by (simp add: WithRetry_success)
        next
          case (Some err)
          have eq: "WithRetry sleep f b acc st =
                WithRetry sleep f (snd (NextBackoff b err)) (multierr_Append acc (Some err))
                  (sleep (fst (NextBackoff b err)) st1)"
            using True \<open>f st = Some out\<close> Return Some by (simp add: WithRetry_error)
          let ?n' = "if Equal ErrPDBatchScanRegion err then n - 1 else 0"
          have b': "snd (NextBackoff b err) = ScanRegionBackoffer ?n'" using b by simp
          have inv': "(multierr_Append acc (Some err) = None \<and> 2 \<le> ?n')
             \<or> (\<exists>e0. multierr_Append acc (Some err) = Some e0
                      \<and> (Equal ErrPDBatchScanRegion e0 \<longrightarrow> 1 \<le> ?n'))"
          proof (cases acc)
            case None
            with inv show ?thesis by auto
          next
            case (Some e0)
            then show ?thesis by (simp add: Equal_def)
          qed
          from "1.IH" [OF True \<open>f st = Some out\<close> Return Some b' inv'] res eq
          show ?thesis by simp
        qed
      qed
    qed
  qed
qed

lemma PaginateScanRegion_error_class:
  "PaginateScanRegion c startKey endKey limit w = Some (Return (regions, Some e) w') \<Longrightarrow>
     \<not> Equal ErrPDBatchScanRegion e"
proof (cases "length endKey \<noteq> 0 \<and> 0 \<le> bytes_Compare startKey endKey")
  case True
  assume "PaginateScanRegion c startKey endKey limit w = Some (Return (regions, Some e) w')"
  with True show ?thesis by (auto simp: PaginateScanRegion_def Annotatef_def Equal_def)
next
  case False
  assume "PaginateScanRegion c startKey endKey limit w = Some (Return (regions, Some e) w')"
  with False have "WithRetry (\<lambda>d st. (fst st, time_Sleep c d (snd st)))
               (scanAttempt c startKey endKey limit) newScanRegionBackoffer None ([], w)
             = Some (Return (Some e) (regions, w'))"
    by (auto simp: PaginateScanRegion_def split: option.splits outcome.splits)
  from WithRetry_scan_class [OF _ _ this, of 3] show ?thesis
    by (simp add: newScanRegionBackoffer_def)
qed

lemma splitRegions_continue:
  "splitRegions c regionMap splitKeyMap interval scatterRegions errSplit w =
     Some (Return (ContinueSplitRegions, interval', scatterRegions', errSplit') w') \<Longrightarrow>
   errSplit' \<noteq> None"
proof (induction splitKeyMap arbitrary: scatterRegions errSplit w)
  case Nil
  then show ?case by simp
next
  case (Cons entry splitKeyMap)
  obtain regionID keys where e: "entry = (regionID, keys)" by (cases entry)
  from Cons.prems e show ?case
    by (auto split: option.splits outcome.splits prod.splits if_splits dest: Cons.IH)
qed

lemma attemptsExhausted_error:
  "attemptsExhausted c rewriteRules sortedRanges minKey maxKey n interval scatterRegions errSplit w \<Longrightarrow>
   0 < n \<or> errSplit \<noteq> None \<Longrightarrow>
     \<exists>err scatterRegions' w'.
       SplitRegions_attempts c rewriteRules sortedRanges minKey maxKey n interval scatterRegions errSplit w
         = Some (Return (Inr (scatterRegions', Some err)) w')"
proof (induction n arbitrary: interval scatterRegions errSplit w)
  case 0
  then show ?case by auto
next
  case (Suc n)
  let ?scan = "PaginateScanRegion c minKey maxKey ScanRegionPaginationLimit w"
  from Suc.prems(1) obtain regions es w1 where scan: "?scan = Some (Return (regions, es) w1)"
    by (auto split: option.splits outcome.splits prod.splits)
  show ?case
  proof (cases es)
    case (Some errScan)
    with scan Suc.prems(1) have "Equal ErrPDBatchScanRegion errScan" by simp
    moreover from scan Some have "\<not> Equal ErrPDBatchScanRegion errScan"
      using PaginateScanRegion_error_class by blast
    ultimately show ?thesis by simp
  next
    case None
    let ?split = "splitRegions c
                  (fold (\<lambda>region regionMap. AList.update (GetId (Region region)) region regionMap)
                     regions [])
                  (getSplitKeys (EncodeBytes c) rewriteRules sortedRanges regions)
                  interval scatterRegions errSplit w1"
    from Suc.prems(1) scan None obtain interval' scatterRegions' errSplit' w2 where
      sp: "?split = Some (Return (ContinueSplitRegions, interval', scatterRegions', errSplit') w2)"
      and ex: "attemptsExhausted c rewriteRules sortedRanges minKey maxKey n interval'
                 scatterRegions' errSplit' w2"
      by (auto split: option.splits outcome.splits prod.splits control.splits)
    from splitRegions_continue [OF sp] have "errSplit' \<noteq> None" .
    from Suc.IH [OF ex] this obtain err sr' w' where
      "SplitRegions_attempts c rewriteRules sortedRanges minKey maxKey n interval' scatterRegions'
         errSplit' w2 = Some (Return (Inr (sr', Some err)) w')"
      by blast
    with scan None sp show ?thesis by simp
  qed
qed

text \<open>
  C3. Scanning and splitting errors are not swallowed. (1) An error that the topology scan
  returns after its own retries never has the class that Split continues on (a rejected
  topology is retried three times, and the three errors come back combined), so the attempt
  of the outer loop that meets it returns it. (2) When every remaining attempt of the outer
  loop fails, that is, the scan returns regions and some batch-split of the plan fails with
  an error that is not "no valid key", the loop ends with a non-nil error once the attempts
  are used up. (3) So Split, whose 32 attempts all fail in this way, returns a non-nil error,
  and (4) Split returns the error of a failing first scan as it is.
\<close>

theorem Split_exhaustion_returns_error:
  "(PaginateScanRegion c minKey maxKey ScanRegionPaginationLimit w = Some (Return (regions, Some errScan) w1)
      \<longrightarrow> \<not> Equal ErrPDBatchScanRegion errScan
          \<and> SplitRegions_attempts c rewriteRules sortedRanges minKey maxKey (Suc n) interval
                scatterRegions errSplit w = Some (Return (Inl errScan) w1))
   \<and> (0 < n \<and> attemptsExhausted c rewriteRules sortedRanges minKey maxKey n interval scatterRegions
                 errSplit w
      \<longrightarrow> (\<exists>err scatterRegions' w'.
             SplitRegions_attempts c rewriteRules sortedRanges minKey maxKey n interval scatterRegions
               errSplit w = Some (Return (Inr (scatterRegions', Some err)) w')))
   \<and> (ranges \<noteq> [] \<and> SortRanges c ranges rewriteRules = Inr sortedRanges \<and> sortedRanges \<noteq> []
        \<and> attemptsExhausted c rewriteRules sortedRanges
             (EncodeBytes c (StartKey (hd sortedRanges))) (EncodeBytes c (EndKey (last sortedRanges)))
             SplitRetryTimes SplitRetryInterval [] None w
      \<longrightarrow> (\<exists>err w'. Split c ranges rewriteRules w = Some (Return (Some err) w')))
   \<and> (ranges \<noteq> [] \<and> SortRanges c ranges rewriteRules = Inr sortedRanges \<and> sortedRanges \<noteq> []
        \<and> PaginateScanRegion c
             (EncodeBytes c (StartKey (hd sortedRanges))) (EncodeBytes c (EndKey (last sortedRanges)))
             ScanRegionPaginationLimit w = Some (Return (regions, Some errScan) w1)
      \<longrightarrow> Split c ranges rewriteRules w = Some (Return (Some errScan) w1))"
proof -
  have p1: "PaginateScanRegion c minKey maxKey ScanRegionPaginationLimit w = Some (Return (regions, Some errScan) w1)
      \<longrightarrow> \<not> Equal ErrPDBatchScanRegion errScan
          \<and> SplitRegions_attempts c rewriteRules sortedRanges minKey maxKey (Suc n) interval
                scatterRegions errSplit w = Some (Return (Inl errScan) w1)"
    using PaginateScanRegion_error_class [of c minKey maxKey ScanRegionPaginationLimit w regions errScan w1]
    by simp
  have p2: "0 < n \<and> attemptsExhausted c rewriteRules sortedRanges minKey maxKey n interval scatterRegions
                 errSplit w
      \<longrightarrow> (\<exists>err scatterRegions' w'.
             SplitRegions_attempts c rewriteRules sortedRanges minKey maxKey n interval scatterRegions
               errSplit w = Some (Return (Inr (scatterRegions', Some err)) w'))"
    using attemptsExhausted_error by blast
  have p3: "ranges \<noteq> [] \<and> SortRanges c ranges rewriteRules = Inr sortedRanges \<and> sortedRanges \<noteq> []
        \<and> attemptsExhausted c rewriteRules sortedRanges
             (EncodeBytes c (StartKey (hd sortedRanges))) (EncodeBytes c (EndKey (last sortedRanges)))
             SplitRetryTimes SplitRetryInterval [] None w
      \<longrightarrow> (\<exists>err w'. Split c ranges rewriteRules w = Some (Return (Some err) w'))"
  proof
    assume a: "ranges \<noteq> [] \<and> SortRanges c ranges rewriteRules = Inr sortedRanges \<and> sortedRanges \<noteq> []
        \<and> attemptsExhausted c rewriteRules sortedRanges
             (EncodeBytes c (StartKey (hd sortedRanges))) (EncodeBytes c (EndKey (last sortedRanges)))
             SplitRetryTimes SplitRetryInterval [] None w"
    have "0 < SplitRetryTimes" by (simp add: SplitRetryTimes_def)
    with a attemptsExhausted_error [of c rewriteRules sortedRanges
             "EncodeBytes c (StartKey (hd sortedRanges))" "EncodeBytes c (EndKey (last sortedRanges))"
             SplitRetryTimes SplitRetryInterval "[]" None w]
    obtain err sr' w' where "SplitRegions_attempts c rewriteRules sortedRanges
             (EncodeBytes c (StartKey (hd sortedRanges))) (EncodeBytes c (EndKey (last sortedRanges)))
             SplitRetryTimes SplitRetryInterval [] None w = Some (Return (Inr (sr', Some err)) w')"
      by blast
    with a show "\<exists>err w'. Split c ranges rewriteRules w = Some (Return (Some err) w')"
      by (simp add: Split_def)
  qed
  have p4: "ranges \<noteq> [] \<and> SortRanges c ranges rewriteRules = Inr sortedRanges \<and> sortedRanges \<noteq> []
        \<and> PaginateScanRegion c
             (EncodeBytes c (StartKey (hd sortedRanges))) (EncodeBytes c (EndKey (last sortedRanges)))
             ScanRegionPaginationLimit w = Some (Return (regions, Some errScan) w1)
      \<longrightarrow> Split c ranges rewriteRules w = Some (Return (Some errScan) w1)"
  proof
    assume a: "ranges \<noteq> [] \<and> SortRanges c ranges rewriteRules = Inr sortedRanges \<and> sortedRanges \<noteq> []
        \<and> PaginateScanRegion c
             (EncodeBytes c (StartKey (hd sortedRanges))) (EncodeBytes c (EndKey (last sortedRanges)))
             ScanRegionPaginationLimit w = Some (Return (regions, Some errScan) w1)"
    have s: "SplitRetryTimes = Suc 31" by (simp add: SplitRetryTimes_def)
    from a have "\<not> Equal ErrPDBatchScanRegion errScan"
      using PaginateScanRegion_error_class by blast
    with a have "SplitRegions_attempts c rewriteRules sortedRanges
             (EncodeBytes c (StartKey (hd sortedRanges))) (EncodeBytes c (EndKey (last sortedRanges)))
             (Suc 31) SplitRetryInterval [] None w = Some (Return (Inl errScan) w1)"
      by (simp del: Suc_numeral)
    hence "SplitRegions_attempts c rewriteRules sortedRanges
             (EncodeBytes c (StartKey (hd sortedRanges))) (EncodeBytes c (EndKey (last sortedRanges)))
             SplitRetryTimes SplitRetryInterval [] None w = Some (Return (Inl errScan) w1)"
      using s by simp
    with a show "Split c ranges rewriteRules w = Some (Return (Some errScan) w1)"
      by (simp add: Split_def)
  qed
  from p1 p2 p3 p4 show ?thesis by (intro conjI)
qed

theorem Split_exhaustion_returns_error_witness:
  "attemptsExhausted (staticClient [regionAt 1 [] []] (Inl (Err ErrOther ''epoch not match'')) None)
      [] [\<lparr>StartKey = [1], EndKey = [2]\<rparr>] (memcomparable [1]) (memcomparable [2])
      SplitRetryTimes SplitRetryInterval [] None (0, [])
   \<and> (\<exists>err w'. Split (staticClient [regionAt 1 [] []] (Inl (Err ErrOther ''epoch not match'')) None)
                  [\<lparr>StartKey = [1], EndKey = [2]\<rparr>] [] (0, []) = Some (Return (Some err) w'))
   \<and> Split (staticClient [] (Inr []) None) [\<lparr>StartKey = [1], EndKey = [2]\<rparr>] [] (0, []) =
       Some (Return
         (Some (Err MultiError
            ''scan region return empty result; scan region return empty result; scan region return empty result''))
         (1500000000,
          [CallScanRegions (memcomparable [1]) (memcomparable [2]) 128, Sleep 500000000,
           CallScanRegions (memcomparable [1]) (memcomparable [2]) 128, Sleep 500000000,
           CallScanRegions (memcomparable [1]) (memcomparable [2]) 128, Sleep 500000000]))"
proof -
  have h1: "attemptsExhausted (staticClient [regionAt 1 [] []] (Inl (Err ErrOther ''epoch not match'')) None)
      [] [\<lparr>StartKey = [1], EndKey = [2]\<rparr>]
      (EncodeBytes (staticClient [regionAt 1 [] []] (Inl (Err ErrOther ''epoch not match'')) None)
         (StartKey (hd [\<lparr>StartKey = [1], EndKey = [2]\<rparr>])))
      (EncodeBytes (staticClient [regionAt 1 [] []] (Inl (Err ErrOther ''epoch not match'')) None)
         (EndKey (last [\<lparr>StartKey = [1], EndKey = [2]\<rparr>])))
      SplitRetryTimes SplitRetryInterval [] None (0, [])"
    by code_simp
  have h2: "SortRanges (staticClient [regionAt 1 [] []] (Inl (Err ErrOther ''epoch not match'')) None)
              [\<lparr>StartKey = [1], EndKey = [2]\<rparr>] [] = Inr [\<lparr>StartKey = [1], EndKey = [2]\<rparr>]"
    by code_simp
  have e1: "EncodeBytes (staticClient [regionAt 1 [] []] (Inl (Err ErrOther ''epoch not match'')) None)
              (StartKey (hd [\<lparr>StartKey = [1], EndKey = [2]\<rparr>])) = memcomparable [1]"
    by (simp add: staticClient_def)
  have e2: "EncodeBytes (staticClient [regionAt 1 [] []] (Inl (Err ErrOther ''epoch not match'')) None)
              (EndKey (last [\<lparr>StartKey = [1], EndKey = [2]\<rparr>])) = memcomparable [2]"
    by (simp add: staticClient_def)
  have a: "\<exists>err w'. Split (staticClient [regionAt 1 [] []] (Inl (Err ErrOther ''epoch not match'')) None)
                  [\<lparr>StartKey = [1], EndKey = [2]\<rparr>] [] (0, []) = Some (Return (Some err) w')"
    using Split_exhaustion_returns_error [where c = "staticClient [regionAt 1 [] []] (Inl (Err ErrOther ''epoch not match'')) None"
      and ranges = "[\<lparr>StartKey = [1], EndKey = [2]\<rparr>]" and rewriteRules = "[]"
      and sortedRanges = "[\<lparr>StartKey = [1], EndKey = [2]\<rparr>]" and w = "(0, [])"] h1 h2
    by simp
  have g1: "PaginateScanRegion (staticClient [] (Inr []) None)
             (EncodeBytes (staticClient [] (Inr []) None) (StartKey (hd [\<lparr>StartKey = [1], EndKey = [2]\<rparr>])))
             (EncodeBytes (staticClient [] (Inr []) None) (EndKey (last [\<lparr>StartKey = [1], EndKey = [2]\<rparr>])))
             ScanRegionPaginationLimit (0, []) =
            Some (Return ([], Some (Err MultiError
            ''scan region return empty result; scan region return empty result; scan region return empty result''))
              (1500000000,
          [CallScanRegions (memcomparable [1]) (memcomparable [2]) 128, Sleep 500000000,
           CallScanRegions (memcomparable [1]) (memcomparable [2]) 128, Sleep 500000000,
           CallScanRegions (memcomparable [1]) (memcomparable [2]) 128, Sleep 500000000]))"
    by code_simp
  have g2: "SortRanges (staticClient [] (Inr []) None) [\<lparr>StartKey = [1], EndKey = [2]\<rparr>] [] = Inr [\<lparr>StartKey = [1], EndKey = [2]\<rparr>]"
    by code_simp
  have b: "Split (staticClient [] (Inr []) None) [\<lparr>StartKey = [1], EndKey = [2]\<rparr>] [] (0, []) =
       Some (Return
         (Some (Err MultiError
            ''scan region return empty result; scan region return empty result; scan region return empty result''))
         (1500000000,
          [CallScanRegions (memcomparable [1]) (memcomparable [2]) 128, Sleep 500000000,
           CallScanRegions (memcomparable [1]) (memcomparable [2]) 128, Sleep 500000000,
           CallScanRegions (memcomparable [1]) (memcomparable [2]) 128, Sleep 500000000]))"
    using Split_exhaustion_returns_error [where c = "staticClient [] (Inr []) None"
      and ranges = "[\<lparr>StartKey = [1], EndKey = [2]\<rparr>]" and rewriteRules = "[]"
      and sortedRanges = "[\<lparr>StartKey = [1], EndKey = [2]\<rparr>]" and w = "(0, [])"
      and regions = "[]"
      and errScan = "Err MultiError
            ''scan region return empty result; scan region return empty result; scan region return empty result''"
      and ?w1.0 = "(1500000000,
          [CallScanRegions (memcomparable [1]) (memcomparable [2]) 128, Sleep 500000000,
           CallScanRegions (memcomparable [1]) (memcomparable [2]) 128, Sleep 500000000,
           CallScanRegions (memcomparable [1]) (memcomparable [2]) 128, Sleep 500000000])"] g1 g2
    by simp
  from h1 e1 e2 have c: "attemptsExhausted (staticClient [regionAt 1 [] []] (Inl (Err ErrOther ''epoch not match'')) None)
      [] [\<lparr>StartKey = [1], EndKey = [2]\<rparr>] (memcomparable [1]) (memcomparable [2])
      SplitRetryTimes SplitRetryInterval [] None (0, [])"
    by simp
  from c a b show ?thesis by (intro conjI)
qed

lemma splitAndScatterRegions_rpc_error:
  "keys \<noteq> [] \<Longrightarrow> client_BatchSplitRegions c region keys w = (Inl err, w1) \<Longrightarrow>
     splitAndScatterRegions c region keys w = Some (Return ([], Some err) w1)"
  by (simp add: splitAndScatterRegions_def)

text \<open>
  C4. When the batch-split RPC for a region of the plan fails: if the message of the error
  contains "no valid key", the loop over the plan ends with a return of that error, in
  the world right after the RPC (no sleep, no further call), the attempt returns it, and
  so does Split. For any other error the interval is doubled (up to the maximum), the
  executor sleeps that long and continues the outer loop: the result of the attempt is the
  result of the remaining attempts, each of which starts with a new scan.
\<close>

theorem split_error_policy:
  "(keys \<noteq> [] \<and> map_of regionMap regionID = Some region
      \<and> client_BatchSplitRegions c region keys w = (Inl err, w1) \<longrightarrow>
      (strings_Contains (Message err) ''no valid key'' \<longrightarrow>
         splitRegions c regionMap ((regionID, keys) # splitKeyMap) interval scatterRegions errSplit w =
           Some (Return (ReturnError err, interval, scatterRegions, Some err) w1))
      \<and> (\<not> strings_Contains (Message err) ''no valid key'' \<longrightarrow>
         splitRegions c regionMap ((regionID, keys) # splitKeyMap) interval scatterRegions errSplit w =
           Some (Return
             (ContinueSplitRegions,
              if SplitMaxRetryInterval < 2 * interval then SplitMaxRetryInterval else 2 * interval,
              scatterRegions, Some err)
             (time_Sleep c
                (if SplitMaxRetryInterval < 2 * interval then SplitMaxRetryInterval else 2 * interval)
                w1))))
   \<and> (PaginateScanRegion c minKey maxKey ScanRegionPaginationLimit w0 = Some (Return (regions, None) w2)
        \<and> splitRegions c
             (fold (\<lambda>region regionMap. AList.update (GetId (Region region)) region regionMap) regions [])
             (getSplitKeys (EncodeBytes c) rewriteRules sortedRanges regions)
             interval scatterRegions errSplit w2 =
           Some (Return (ctl, interval', scatterRegions', errSplit') w3) \<longrightarrow>
      (ctl = ReturnError err \<longrightarrow>
         SplitRegions_attempts c rewriteRules sortedRanges minKey maxKey (Suc n) interval
           scatterRegions errSplit w0 = Some (Return (Inl err) w3))
      \<and> (ctl = ContinueSplitRegions \<longrightarrow>
         SplitRegions_attempts c rewriteRules sortedRanges minKey maxKey (Suc n) interval
           scatterRegions errSplit w0 =
         SplitRegions_attempts c rewriteRules sortedRanges minKey maxKey n interval'
           scatterRegions' errSplit' w3))
   \<and> (ranges \<noteq> [] \<and> SortRanges c ranges rewriteRules = Inr sortedRanges \<and> sortedRanges \<noteq> []
        \<and> SplitRegions_attempts c rewriteRules sortedRanges
             (EncodeBytes c (StartKey (hd sortedRanges))) (EncodeBytes c (EndKey (last sortedRanges)))
             SplitRetryTimes SplitRetryInterval [] None w0 = Some (Return (Inl err) w3) \<longrightarrow>
      Split c ranges rewriteRules w0 = Some (Return (Some err) w3))"
proof -
  have p1: "keys \<noteq> [] \<and> map_of regionMap regionID = Some region
      \<and> client_BatchSplitRegions c region keys w = (Inl err, w1) \<longrightarrow>
      (strings_Contains (Message err) ''no valid key'' \<longrightarrow>
         splitRegions c regionMap ((regionID, keys) # splitKeyMap) interval scatterRegions errSplit w =
           Some (Return (ReturnError err, interval, scatterRegions, Some err) w1))
      \<and> (\<not> strings_Contains (Message err) ''no valid key'' \<longrightarrow>
         splitRegions c regionMap ((regionID, keys) # splitKeyMap) interval scatterRegions errSplit w =
           Some (Return
             (ContinueSplitRegions,
              if SplitMaxRetryInterval < 2 * interval then SplitMaxRetryInterval else 2 * interval,
              scatterRegions, Some err)
             (time_Sleep c
                (if SplitMaxRetryInterval < 2 * interval then SplitMaxRetryInterval else 2 * interval)
                w1)))"
    using splitAndScatterRegions_rpc_error [of keys c region w err w1] by simp
  have p2: "PaginateScanRegion c minKey maxKey ScanRegionPaginationLimit w0 = Some (Return (regions, None) w2)
        \<and> splitRegions c
             (fold (\<lambda>region regionMap. AList.update (GetId (Region region)) region regionMap) regions [])
             (getSplitKeys (EncodeBytes c) rewriteRules sortedRanges regions)
             interval scatterRegions errSplit w2 =
           Some (Return (ctl, interval', scatterRegions', errSplit') w3) \<longrightarrow>
      (ctl = ReturnError err \<longrightarrow>
         SplitRegions_attempts c rewriteRules sortedRanges minKey maxKey (Suc n) interval
           scatterRegions errSplit w0 = Some (Return (Inl err) w3))
      \<and> (ctl = ContinueSplitRegions \<longrightarrow>
         SplitRegions_attempts c rewriteRules sortedRanges minKey maxKey (Suc n) interval
           scatterRegions errSplit w0 =
         SplitRegions_attempts c rewriteRules sortedRanges minKey maxKey n interval'
           scatterRegions' errSplit' w3)"
    by simp
  have p3: "ranges \<noteq> [] \<and> SortRanges c ranges rewriteRules = Inr sortedRanges \<and> sortedRanges \<noteq> []
        \<and> SplitRegions_attempts c rewriteRules sortedRanges
             (EncodeBytes c (StartKey (hd sortedRanges))) (EncodeBytes c (EndKey (last sortedRanges)))
             SplitRetryTimes SplitRetryInterval [] None w0 = Some (Return (Inl err) w3) \<longrightarrow>
      Split c ranges rewriteRules w0 = Some (Return (Some err) w3)"
    by (simp add: Split_def)
  from p1 p2 p3 show ?thesis by (intro conjI)
qed


theorem split_error_policy_witness:
  "Split (staticClient [regionAt 1 [] []] (Inl (Err ErrOther ''no valid key'')) None)
      [\<lparr>StartKey = [1], EndKey = [2]\<rparr>] [] (0, []) =
     Some (Return (Some (Err ErrOther ''no valid key''))
       (0, [CallScanRegions (memcomparable [1]) (memcomparable [2]) 128,
          CallBatchSplitRegions (regionAt 1 [] []) [[2]]]))
   \<and> splitRegions (staticClient [regionAt 1 [] []] (Inl (Err ErrOther ''no valid key'')) None)
        [(1, regionAt 1 [] [])] [(1, [[2]])] SplitRetryInterval [] None
        (0, [CallScanRegions (memcomparable [1]) (memcomparable [2]) 128]) =
       Some (Return (ReturnError (Err ErrOther ''no valid key''), SplitRetryInterval, [], Some (Err ErrOther ''no valid key''))
         (0, [CallScanRegions (memcomparable [1]) (memcomparable [2]) 128,
          CallBatchSplitRegions (regionAt 1 [] []) [[2]]]))
   \<and> splitRegions (staticClient [regionAt 1 [] []] (Inl (Err ErrOther ''epoch not match'')) None)
        [(1, regionAt 1 [] [])] [(1, [[2]])] SplitRetryInterval [] None
        (0, [CallScanRegions (memcomparable [1]) (memcomparable [2]) 128]) =
       Some (Return (ContinueSplitRegions, 100000000, [], Some (Err ErrOther ''epoch not match''))
         (100000000, [CallScanRegions (memcomparable [1]) (memcomparable [2]) 128,
          CallBatchSplitRegions (regionAt 1 [] []) [[2]], Sleep 100000000]))"
proof -
  have h1: "client_BatchSplitRegions (staticClient [regionAt 1 [] []] (Inl (Err ErrOther ''no valid key'')) None)
              (regionAt 1 [] []) [[2]] (0, [CallScanRegions (memcomparable [1]) (memcomparable [2]) 128]) =
            (Inl (Err ErrOther ''no valid key''),
             (0, [CallScanRegions (memcomparable [1]) (memcomparable [2]) 128,
          CallBatchSplitRegions (regionAt 1 [] []) [[2]]]))"
    by code_simp
  have h4: "SplitRegions_attempts (staticClient [regionAt 1 [] []] (Inl (Err ErrOther ''no valid key'')) None)
             [] [\<lparr>StartKey = [1], EndKey = [2]\<rparr>]
             (EncodeBytes (staticClient [regionAt 1 [] []] (Inl (Err ErrOther ''no valid key'')) None)
                (StartKey (hd [\<lparr>StartKey = [1], EndKey = [2]\<rparr>])))
             (EncodeBytes (staticClient [regionAt 1 [] []] (Inl (Err ErrOther ''no valid key'')) None)
                (EndKey (last [\<lparr>StartKey = [1], EndKey = [2]\<rparr>])))
             SplitRetryTimes SplitRetryInterval [] None (0, []) =
            Some (Return (Inl (Err ErrOther ''no valid key''))
              (0, [CallScanRegions (memcomparable [1]) (memcomparable [2]) 128,
          CallBatchSplitRegions (regionAt 1 [] []) [[2]]]))"
    by code_simp
  have h5: "SortRanges (staticClient [regionAt 1 [] []] (Inl (Err ErrOther ''no valid key'')) None)
              [\<lparr>StartKey = [1], EndKey = [2]\<rparr>] [] = Inr [\<lparr>StartKey = [1], EndKey = [2]\<rparr>]"
    by code_simp
  have h6: "map_of [(1::nat, regionAt 1 [] [])] 1 = Some (regionAt 1 [] [])"
    by simp
  have h7: "strings_Contains (Message (Err ErrOther ''no valid key'')) ''no valid key''"
    by code_simp
  have a: "Split (staticClient [regionAt 1 [] []] (Inl (Err ErrOther ''no valid key'')) None)
      [\<lparr>StartKey = [1], EndKey = [2]\<rparr>] [] (0, []) =
     Some (Return (Some (Err ErrOther ''no valid key''))
       (0, [CallScanRegions (memcomparable [1]) (memcomparable [2]) 128,
          CallBatchSplitRegions (regionAt 1 [] []) [[2]]]))
     \<and> splitRegions (staticClient [regionAt 1 [] []] (Inl (Err ErrOther ''no valid key'')) None)
        [(1, regionAt 1 [] [])] [(1, [[2]])] SplitRetryInterval [] None
        (0, [CallScanRegions (memcomparable [1]) (memcomparable [2]) 128]) =
       Some (Return (ReturnError (Err ErrOther ''no valid key''), SplitRetryInterval, [], Some (Err ErrOther ''no valid key''))
         (0, [CallScanRegions (memcomparable [1]) (memcomparable [2]) 128,
          CallBatchSplitRegions (regionAt 1 [] []) [[2]]]))"
    using split_error_policy [where c = "staticClient [regionAt 1 [] []] (Inl (Err ErrOther ''no valid key'')) None"
      and keys = "[[2]]" and regionMap = "[(1, regionAt 1 [] [])]"
      and regionID = 1 and region = "regionAt 1 [] []"
      and w = "(0, [CallScanRegions (memcomparable [1]) (memcomparable [2]) 128])"
      and err = "Err ErrOther ''no valid key''"
      and ?w1.0 = "(0, [CallScanRegions (memcomparable [1]) (memcomparable [2]) 128,
          CallBatchSplitRegions (regionAt 1 [] []) [[2]]])"
      and splitKeyMap = "[]" and interval = SplitRetryInterval and scatterRegions = "[]"
      and errSplit = None and ranges = "[\<lparr>StartKey = [1], EndKey = [2]\<rparr>]" and rewriteRules = "[]"
      and sortedRanges = "[\<lparr>StartKey = [1], EndKey = [2]\<rparr>]"
      and ?w0.0 = "(0, [])"
      and ?w3.0 = "(0, [CallScanRegions (memcomparable [1]) (memcomparable [2]) 128,
          CallBatchSplitRegions (regionAt 1 [] []) [[2]]])"]
      h1 h4 h5 h6 h7
    by simp
  have g1: "client_BatchSplitRegions (staticClient [regionAt 1 [] []] (Inl (Err ErrOther ''epoch not match'')) None)
              (regionAt 1 [] []) [[2]] (0, [CallScanRegions (memcomparable [1]) (memcomparable [2]) 128]) =
            (Inl (Err ErrOther ''epoch not match''),
             (0, [CallScanRegions (memcomparable [1]) (memcomparable [2]) 128,
          CallBatchSplitRegions (regionAt 1 [] []) [[2]]]))"
    by code_simp
  have g7: "\<not> strings_Contains (Message (Err ErrOther ''epoch not match'')) ''no valid key''"
    by code_simp
  have g8: "time_Sleep (staticClient [regionAt 1 [] []] (Inl (Err ErrOther ''epoch not match'')) None)
              100000000
              (0, [CallScanRegions (memcomparable [1]) (memcomparable [2]) 128,
          CallBatchSplitRegions (regionAt 1 [] []) [[2]]]) =
            (100000000, [CallScanRegions (memcomparable [1]) (memcomparable [2]) 128,
          CallBatchSplitRegions (regionAt 1 [] []) [[2]], Sleep 100000000])"
    by code_simp
  have b: "splitRegions (staticClient [regionAt 1 [] []] (Inl (Err ErrOther ''epoch not match'')) None)
        [(1, regionAt 1 [] [])] [(1, [[2]])] SplitRetryInterval [] None
        (0, [CallScanRegions (memcomparable [1]) (memcomparable [2]) 128]) =
       Some (Return (ContinueSplitRegions, 100000000, [], Some (Err ErrOther ''epoch not match''))
         (100000000, [CallScanRegions (memcomparable [1]) (memcomparable [2]) 128,
          CallBatchSplitRegions (regionAt 1 [] []) [[2]], Sleep 100000000]))"
    using split_error_policy [where c = "staticClient [regionAt 1 [] []] (Inl (Err ErrOther ''epoch not match'')) None"
      and keys = "[[2]]" and regionMap = "[(1, regionAt 1 [] [])]"
      and regionID = 1 and region = "regionAt 1 [] []"
      and w = "(0, [CallScanRegions (memcomparable [1]) (memcomparable [2]) 128])"
      and err = "Err ErrOther ''epoch not match''"
      and ?w1.0 = "(0, [CallScanRegions (memcomparable [1]) (memcomparable [2]) 128,
          CallBatchSplitRegions (regionAt 1 [] []) [[2]]])"
      and splitKeyMap = "[]" and interval = SplitRetryInterval and scatterRegions = "[]"
      and errSplit = None]
      g1 h6 g7 g8
    by (simp add: SplitRetryInterval_def SplitMaxRetryInterval_def Millisecond_def Second_def)
  from a b show ?thesis by simp
qed

end
